theory Spec2Isabelle
  imports Main
begin

section \<open>Device online state: values held by the stores\<close>

text \<open>
  \<^verbatim>\<open>src/lib/device-online-state.ts\<close>: the enumeration \<^verbatim>\<open>DeviceOnlineStates\<close> and the
  number each member stands for.
\<close>

datatype DeviceOnlineStates = Unknown | Timeout | Offline | Online

fun state_value :: "DeviceOnlineStates \<Rightarrow> int" where
  "state_value Unknown = -2"
| "state_value Timeout = -1"
| "state_value Offline = 0"
| "state_value Online = 1"

text \<open>
  A JavaScript value read from a field of a parsed JSON object (\<open>Undefined\<close> when the
  field is absent), and what \<^verbatim>\<open>if (id)\<close> and \<^verbatim>\<open>!id\<close> test.
\<close>

datatype js = Undefined | Null | Bool bool | Num int | Str string

fun truthy :: "js \<Rightarrow> bool" where
  "truthy Undefined = False"
| "truthy Null = False"
| "truthy (Bool b) = b"
| "truthy (Num n) = (n \<noteq> 0)"
| "truthy (Str s) = (s \<noteq> [])"

text \<open>
  The text kept under a key of the Delay Store, as \<^verbatim>\<open>JSON.parse\<close> and the destructuring
  \<^verbatim>\<open>const { id, currentState } = JSON.parse(value)\<close> read it: \<open>BadRecord\<close> is a text on
  which they throw, \<open>RecordText id currentState\<close> one that yields these two fields.
  The payload of a queue message likewise, with the fields \<^verbatim>\<open>uuid\<close> (a string, as the
  source's type assertion says) and \<^verbatim>\<open>nextState\<close>.
\<close>

datatype record_text = BadRecord | RecordText js js

datatype message_text = BadMessage | MessageText string js

datatype error = RedisError | QueueError | ApiError | SyntaxError | UnexpectedState js

datatype event =
    RedisGet string
  | RedisSet string record_text nat
  | QSend message_text nat
  | QReceive nat
  | QDelete js
  | ApiPatch string int
  | Sleep nat
  | Report error "string option"

record qmsg =
  mid :: string
  body :: message_text
  visible_at :: nat

text \<open>
  A call to \<^verbatim>\<open>scheduleChangeOfStateForDevice\<close> whose promise the caller has dropped, once
  its read of the Delay Store has replied: the arguments of the call and what the chain does
  next. It deletes the message the record named, or sends the new message, or, with the id
  the queue gave, writes the record.
\<close>

datatype stage = Cancelling js | Sending | Setting string

datatype task = Task string DeviceOnlineStates DeviceOnlineStates nat stage

text \<open>
  The world the manager acts on: a clock in seconds, the Delay Store (each key with its
  text and the time it expires at), the Delayed Queue, the rows of the device table (the
  System-of-Record), each with its \<^verbatim>\<open>uuid\<close> and its \<^verbatim>\<open>api_heartbeat_state\<close>, the rows
  written so far, the number of messages sent so far, for each of the three services the
  outcomes of its next calls (\<open>True\<close>: the call fails; past the end of the list every call
  succeeds), and the calls made so far, in order. Then the dropped chains that have not come
  to their end, and the turns they get: each time a chain of the consumer waits for a reply,
  the head of \<open>turns\<close> names, one after the other, the dropped chains that make their
  next call meanwhile (none once the list is used up).
\<close>

record world =
  now :: nat
  redis :: "string \<Rightarrow> (record_text \<times> nat) option"
  queue :: "qmsg list"
  device :: "(string \<times> int) list"
  written :: "(string \<times> int) list"
  sent :: nat
  redis_faults :: "bool list"
  rsmq_faults :: "bool list"
  api_faults :: "bool list"
  trace :: "event list"
  running :: "task list"
  turns :: "nat list list"

section \<open>Promises\<close>

text \<open>
  A promise is a computation on the world that resolves with a value (\<open>Inr\<close>) or rejects
  with an error (\<open>Inl\<close>). \<open>thenP\<close> is \<^verbatim>\<open>.then(f)\<close>, \<open>catchP\<close> is \<^verbatim>\<open>.catch(h)\<close>.
  Every call to a service is made, takes effect and replies at one point of the run.
\<close>

type_synonym 'a promise = "world \<Rightarrow> (error + 'a) \<times> world"

definition resolve :: "'a \<Rightarrow> 'a promise" where
  "resolve a w = (Inr a, w)"

definition reject :: "error \<Rightarrow> 'a promise" where
  "reject e w = (Inl e, w)"

definition thenP :: "'a promise \<Rightarrow> ('a \<Rightarrow> 'b promise) \<Rightarrow> 'b promise" where
  "thenP p f w = (case p w of (Inl e, w') \<Rightarrow> (Inl e, w') | (Inr a, w') \<Rightarrow> f a w')"

definition catchP :: "'a promise \<Rightarrow> (error \<Rightarrow> 'a promise) \<Rightarrow> 'a promise" where
  "catchP p h w = (case p w of (Inl e, w') \<Rightarrow> h e w' | (Inr a, w') \<Rightarrow> (Inr a, w'))"

section \<open>The services the manager calls\<close>

text \<open>
  Whether the next call to a service fails: the head of the list of its outcomes. Every
  call takes the head off, whatever it is.
\<close>

definition failing :: "bool list \<Rightarrow> bool" where
  "failing fs = (case fs of [] \<Rightarrow> False | f # _ \<Rightarrow> f)"

text \<open>
  Modelled from the spec: the store-level expiry of \<^verbatim>\<open>DelayStore.set(key, bytes, ttlSeconds)\<close>.
  What a key of the Delay Store holds at the present time: nothing once its expiry has come.
\<close>

definition live_value :: "world \<Rightarrow> string \<Rightarrow> record_text option" where
  "live_value w k =
     (case redis w k of
        None \<Rightarrow> None
      | Some (v, expires) \<Rightarrow> if expires \<le> now w then None else Some v)"

text \<open>
  Modelled from the spec: \<^verbatim>\<open>DelayStore.get(key) -> bytes|null\<close>, the \<^verbatim>\<open>getAsync\<close> of the
  client made in \<^verbatim>\<open>./redis-promise\<close>. A key past its expiry reads as absent.
\<close>

definition getAsync :: "string \<Rightarrow> record_text option promise" where
  "getAsync k w =
     (let w1 = w\<lparr>redis_faults := tl (redis_faults w), trace := trace w @ [RedisGet k]\<rparr>
      in if failing (redis_faults w) then (Inl RedisError, w1)
         else (Inr (live_value w k), w1))"

text \<open>
  Modelled from the spec: \<^verbatim>\<open>DelayStore.set(key, bytes, ttlSeconds)\<close>, the
  \<^verbatim>\<open>setAsync(key, text, 'EX', ttl)\<close> of the same client; it resolves with the store's reply.
\<close>

definition setAsync :: "string \<Rightarrow> record_text \<Rightarrow> nat \<Rightarrow> string promise" where
  "setAsync k v ttl w =
     (let w1 = w\<lparr>redis_faults := tl (redis_faults w), trace := trace w @ [RedisSet k v ttl]\<rparr>
      in if failing (redis_faults w) then (Inl RedisError, w1)
         else (Inr ''OK'', w1\<lparr>redis := (redis w)(k \<mapsto> (v, now w + ttl))\<rparr>))"

text \<open>
  Modelled from the spec: the queue-assigned message id of \<^verbatim>\<open>DelayedQueue.send\<close>. Every
  message gets an id of its own, a string that is not empty; the model numbers them.
\<close>

definition message_id :: "nat \<Rightarrow> string" where
  "message_id n = CHR ''m'' # replicate n (CHR ''0'')"

text \<open>
  Modelled from the spec: \<^verbatim>\<open>DelayedQueue.send(payload, delaySeconds) -> messageId\<close>, the
  \<^verbatim>\<open>sendMessageAsync\<close> of \<^verbatim>\<open>rsmq\<close>. The message becomes ready once the delay has passed.
\<close>

definition sendMessageAsync :: "message_text \<Rightarrow> nat \<Rightarrow> string promise" where
  "sendMessageAsync b d w =
     (let w1 = w\<lparr>rsmq_faults := tl (rsmq_faults w), trace := trace w @ [QSend b d]\<rparr>
      in if failing (rsmq_faults w) then (Inl QueueError, w1)
         else (Inr (message_id (sent w)),
               w1\<lparr>queue := queue w @ [\<lparr>mid = message_id (sent w), body = b, visible_at = now w + d\<rparr>],
                  sent := Suc (sent w)\<rparr>))"

text \<open>
  Modelled from the spec: the delivery delay and the visibility timeout of the Delayed Queue.
  A message is ready from the time \<open>visible_at\<close> on; a receive hands out the first ready
  message of the queue and moves its \<open>visible_at\<close> on by the visibility timeout.
\<close>

definition ready :: "world \<Rightarrow> qmsg \<Rightarrow> bool" where
  "ready w m = (visible_at m \<le> now w)"

definition next_ready :: "world \<Rightarrow> qmsg option" where
  "next_ready w = find (ready w) (queue w)"

definition hide :: "string \<Rightarrow> nat \<Rightarrow> qmsg \<Rightarrow> qmsg" where
  "hide i t m = (if mid m = i then m\<lparr>visible_at := t\<rparr> else m)"

text \<open>
  Modelled from the spec: \<^verbatim>\<open>DelayedQueue.receive(visibilityTimeoutSeconds) -> {id, payload}|null\<close>,
  the \<^verbatim>\<open>receiveMessageAsync\<close> of \<^verbatim>\<open>rsmq\<close>. A ready message is handed out and stays in the
  queue, hidden for the visibility timeout; with no ready message the reply has no id.
\<close>

definition receiveMessageAsync :: "nat \<Rightarrow> (string \<times> message_text) option promise" where
  "receiveMessageAsync vt w =
     (let w1 = w\<lparr>rsmq_faults := tl (rsmq_faults w), trace := trace w @ [QReceive vt]\<rparr>
      in if failing (rsmq_faults w) then (Inl QueueError, w1)
         else (case next_ready w of
                 None \<Rightarrow> (Inr None, w1)
               | Some m \<Rightarrow> (Inr (Some (mid m, body m)),
                            w1\<lparr>queue := map (hide (mid m) (now w + vt)) (queue w)\<rparr>)))"

text \<open>
  Modelled from the spec: \<^verbatim>\<open>DelayedQueue.delete(id)\<close>, the \<^verbatim>\<open>deleteMessageAsync\<close> of
  \<^verbatim>\<open>rsmq\<close>. The messages with another id stay. Deleting a message that is gone is no
  error; an id that is no string is one.
\<close>

definition other_than :: "string \<Rightarrow> qmsg \<Rightarrow> bool" where
  "other_than i m = (mid m \<noteq> i)"

definition deleteMessageAsync :: "js \<Rightarrow> unit promise" where
  "deleteMessageAsync i w =
     (let w1 = w\<lparr>rsmq_faults := tl (rsmq_faults w), trace := trace w @ [QDelete i]\<rparr>
      in if failing (rsmq_faults w) then (Inl QueueError, w1)
         else (case i of
                 Str s \<Rightarrow> (Inr (), w1\<lparr>queue := filter (other_than s) (queue w)\<rparr>)
               | _ \<Rightarrow> (Inl QueueError, w1)))"

text \<open>
  Modelled from the spec: \<^verbatim>\<open>SystemOfRecord.compareAndSetState(agentId, newState)\<close>, the
  \<^verbatim>\<open>resinApi.patch\<close> of \<^verbatim>\<open>../platform\<close> on the resource \<^verbatim>\<open>device\<close>: the rows the filter
  selects are written, each with the body's \<^verbatim>\<open>api_heartbeat_state\<close>, and no other row is.
  The filter is the caller's.
\<close>

definition selected :: "(string \<Rightarrow> int \<Rightarrow> bool) \<Rightarrow> string \<times> int \<Rightarrow> bool" where
  "selected flt r = flt (fst r) (snd r)"

definition write_row :: "int \<Rightarrow> string \<times> int \<Rightarrow> string \<times> int" where
  "write_row new r = (fst r, new)"

definition patch_rows ::
  "(string \<Rightarrow> int \<Rightarrow> bool) \<Rightarrow> int \<Rightarrow> (string \<times> int) list \<Rightarrow> (string \<times> int) list" where
  "patch_rows flt new rows = map (\<lambda>r. if selected flt r then write_row new r else r) rows"

definition patch :: "string \<Rightarrow> (string \<Rightarrow> int \<Rightarrow> bool) \<Rightarrow> int \<Rightarrow> unit promise" where
  "patch label flt new w =
     (let w1 = w\<lparr>api_faults := tl (api_faults w), trace := trace w @ [ApiPatch label new]\<rparr>
      in if failing (api_faults w) then (Inl ApiError, w1)
         else (Inr (),
               w1\<lparr>device := patch_rows flt new (device w),
                  written := written w @ map (write_row new) (filter (selected flt) (device w))\<rparr>))"

text \<open>
  Modelled from the spec: \<^verbatim>\<open>report(error, context)\<close>, fire-and-forget, never throws; the
  \<^verbatim>\<open>captureException\<close> of \<^verbatim>\<open>../platform/errors\<close>.
\<close>

definition captureException :: "error \<Rightarrow> string option \<Rightarrow> unit promise" where
  "captureException err ctx w = (Inr (), w\<lparr>trace := trace w @ [Report err ctx]\<rparr>)"

text \<open>\<^verbatim>\<open>Bluebird.delay(ms)\<close>: the clock moves on.\<close>

definition delay :: "nat \<Rightarrow> unit promise" where
  "delay ms w = (Inr (), w\<lparr>now := now w + ms div 1000, trace := trace w @ [Sleep ms]\<rparr>)"

section \<open>The manager\<close>

definition REDIS_NAMESPACE :: string where
  "REDIS_NAMESPACE = ''device-online-state''"

definition RSMQ_READ_TIMEOUT :: nat where
  "RSMQ_READ_TIMEOUT = 30"

definition key_of :: "string \<Rightarrow> string" where
  "key_of uuid = REDIS_NAMESPACE @ '':'' @ uuid"

text \<open>
  The filter of \<^verbatim>\<open>updateDeviceModel\<close>: \<^verbatim>\<open>$filter: { uuid, $not: body }\<close> with
  \<^verbatim>\<open>body = { api_heartbeat_state: newState }\<close>.
\<close>

definition uuid_and_not_body :: "string \<Rightarrow> int \<Rightarrow> string \<Rightarrow> int \<Rightarrow> bool" where
  "uuid_and_not_body uuid new u s = (u = uuid \<and> \<not> (s = new))"

definition updateDeviceModel :: "string \<Rightarrow> DeviceOnlineStates \<Rightarrow> bool promise" where
  "updateDeviceModel uuid newState =
     catchP
       (thenP (patch uuid (uuid_and_not_body uuid (state_value newState)) (state_value newState))
          (\<lambda>_. resolve True))
       (\<lambda>err. thenP
          (captureException err
             (Some ''DeviceStateManager: Error updating the API with the device new state.''))
          (\<lambda>_. resolve False))"

definition deviceOnline :: "string \<Rightarrow> bool promise" where
  "deviceOnline uuid = updateDeviceModel uuid Online"

definition scheduleChangeOfStateForDevice ::
  "string \<Rightarrow> DeviceOnlineStates \<Rightarrow> DeviceOnlineStates \<Rightarrow> nat \<Rightarrow> string promise" where
  "scheduleChangeOfStateForDevice uuid currentState nextState delay_s =
     thenP
       (thenP
          (thenP (getAsync (key_of uuid))
             (\<lambda>value. case value of
                  None \<Rightarrow> resolve ()
                | Some BadRecord \<Rightarrow> reject SyntaxError
                | Some (RecordText i _) \<Rightarrow>
                    if truthy i then catchP (deleteMessageAsync i) (\<lambda>_. resolve ())
                    else resolve ()))
          (\<lambda>_. sendMessageAsync (MessageText uuid (Num (state_value nextState))) delay_s))
       (\<lambda>i. setAsync (key_of uuid)
                (RecordText (Str i) (Num (state_value currentState))) (delay_s + 5))"

definition captureEventFor :: "string \<Rightarrow> nat \<Rightarrow> string promise" where
  "captureEventFor uuid timeoutSeconds =
     thenP
       (thenP
          (catchP
             (thenP (getAsync (key_of uuid))
                (\<lambda>value. case value of
                     None \<Rightarrow> resolve True
                   | Some BadRecord \<Rightarrow> reject SyntaxError
                   | Some (RecordText i currentState) \<Rightarrow>
                       if \<not> truthy i \<or> currentState \<noteq> Num (state_value Online)
                       then resolve True
                       else resolve False))
             (\<lambda>_. resolve True))
          (\<lambda>setDeviceOnline.
               if setDeviceOnline then thenP (deviceOnline uuid) (\<lambda>_. resolve ())
               else resolve ()))
       (\<lambda>_. scheduleChangeOfStateForDevice uuid Online Timeout timeoutSeconds)"

text \<open>
  A dropped chain makes its next call. The chain is that of
  \<^verbatim>\<open>scheduleChangeOfStateForDevice\<close> after the read: the deletion with its
  \<^verbatim>\<open>.catch(noop)\<close>, the send, the write of the record. A chain that rejects comes to its
  end and nobody hears of it.
\<close>

fun task_step :: "task \<Rightarrow> world \<Rightarrow> task option \<times> world" where
  "task_step (Task uuid currentState nextState delay_s (Cancelling i)) w =
     (Some (Task uuid currentState nextState delay_s Sending),
      snd (catchP (deleteMessageAsync i) (\<lambda>_. resolve ()) w))"
| "task_step (Task uuid currentState nextState delay_s Sending) w =
     (case sendMessageAsync (MessageText uuid (Num (state_value nextState))) delay_s w of
        (Inl e, w') \<Rightarrow> (None, w')
      | (Inr i, w') \<Rightarrow> (Some (Task uuid currentState nextState delay_s (Setting i)), w'))"
| "task_step (Task uuid currentState nextState delay_s (Setting i)) w =
     (None,
      snd (setAsync (key_of uuid) (RecordText (Str i) (Num (state_value currentState)))
             (delay_s + 5) w))"

definition resume :: "nat \<Rightarrow> world \<Rightarrow> world" where
  "resume k w =
     (if k < length (running w) then
        (case task_step (running w ! k) w of
           (None, w') \<Rightarrow> w'\<lparr>running := take k (running w) @ drop (Suc k) (running w)\<rparr>
         | (Some t, w') \<Rightarrow> w'\<lparr>running := (running w)[k := t]\<rparr>)
      else w)"

text \<open>
  While a chain waits for a reply the dropped chains get their turns. \<open>awaited\<close> is a
  promise the consumer waits for: the reply of the queue to the receive, the promise of the
  handler. Which chains get a turn, and how many, is for \<open>turns\<close> to say, so that
  what is proved for every world holds however the calls of the dropped chains fall
  between those of the consumer.
\<close>

definition yield :: "world \<Rightarrow> world" where
  "yield w = (case turns w of [] \<Rightarrow> w | ks # rest \<Rightarrow> fold resume ks (w\<lparr>turns := rest\<rparr>))"

definition awaited :: "'a promise \<Rightarrow> 'a promise" where
  "awaited p w = (case p w of (r, w') \<Rightarrow> (r, yield w'))"

text \<open>
  \<^verbatim>\<open>this.scheduleChangeOfStateForDevice(...)\<close> called and its promise dropped, as in the
  case \<^verbatim>\<open>Timeout\<close> of \<^verbatim>\<open>consume\<close>. The call issues the read of the Delay Store and
  returns; the caller goes on in the same tick. What the function given to the first
  \<^verbatim>\<open>.then\<close> decides on the reply is kept with the chain: a failed read or a record that
  does not parse rejects the chain, which is at its end then. A chain that runs to its end
  with no other call between its own leaves the world as \<open>scheduleChangeOfStateForDevice\<close>
  does (lemma \<open>dropped_chain_alone\<close>).
\<close>

definition schedule_dropped ::
  "string \<Rightarrow> DeviceOnlineStates \<Rightarrow> DeviceOnlineStates \<Rightarrow> nat \<Rightarrow> unit promise" where
  "schedule_dropped uuid currentState nextState delay_s w =
     (case getAsync (key_of uuid) w of
        (Inl e, w') \<Rightarrow> (Inr (), w')
      | (Inr value, w') \<Rightarrow>
          (Inr (),
           case value of
             None \<Rightarrow>
               w'\<lparr>running := running w' @ [Task uuid currentState nextState delay_s Sending]\<rparr>
           | Some BadRecord \<Rightarrow> w'
           | Some (RecordText i _) \<Rightarrow>
               w'\<lparr>running := running w' @
                  [Task uuid currentState nextState delay_s
                     (if truthy i then Cancelling i else Sending)]\<rparr>))"

text \<open>
  \<^verbatim>\<open>consume\<close> in two parts. \<open>handle_message\<close> is the function given to
  \<^verbatim>\<open>Bluebird.try\<close>: it parses the message and switches on \<^verbatim>\<open>nextState\<close>; in the case
  \<^verbatim>\<open>Timeout\<close> it calls the scheduler, drops its promise, and returns the promise of
  \<^verbatim>\<open>updateDeviceModel\<close>, so the scheduler's read and the write are issued in one tick.
  \<open>consume_round\<close> is the chain of \<^verbatim>\<open>consume\<close> up to its last
  \<^verbatim>\<open>.then(() => this.consume())\<close>: it waits for the reply of the queue and for the promise
  of the handler. The grace delay \<^verbatim>\<open>API_HEARTBEAT_STATE_TIMEOUT_SECONDS\<close> comes from
  \<^verbatim>\<open>./config\<close> and is a parameter.
\<close>

definition handle_message :: "nat \<Rightarrow> message_text \<Rightarrow> bool promise" where
  "handle_message grace message =
     (case message of
        BadMessage \<Rightarrow> reject SyntaxError
      | MessageText uuid nextState \<Rightarrow>
          if nextState = Num (state_value Timeout) then
            thenP (schedule_dropped uuid Timeout Offline grace)
              (\<lambda>_. updateDeviceModel uuid Timeout)
          else if nextState = Num (state_value Offline) then updateDeviceModel uuid Offline
          else reject (UnexpectedState nextState))"

definition consume_round :: "nat \<Rightarrow> unit promise" where
  "consume_round grace =
     catchP
       (thenP (awaited (receiveMessageAsync RSMQ_READ_TIMEOUT))
          (\<lambda>msg. case msg of
               Some (i, message) \<Rightarrow>
                 catchP
                   (thenP (awaited (handle_message grace message))
                      (\<lambda>_. deleteMessageAsync (Str i)))
                   (\<lambda>err. captureException err None)
             | None \<Rightarrow> delay 1000))
       (\<lambda>err. captureException err (Some ''DeviceStateManager ==> Error when consuming queue''))"

text \<open>
  \<^verbatim>\<open>consume\<close>: the last \<^verbatim>\<open>.then(() => this.consume())\<close> starts the next round when the
  promise before it is fulfilled; were it rejected, the chain would end there. The source
  returns \<^verbatim>\<open>null\<close> at once and the chain of promises goes on by itself; the function
  below is that chain, and it has a value only if the chain comes to an end. Between two
  rounds the dropped chains get their turns.
\<close>

partial_function (option) consume :: "nat \<Rightarrow> world \<Rightarrow> world option" where
  "consume grace w =
     (case consume_round grace w of
        (Inl e, w') \<Rightarrow> Some w'
      | (Inr _, w') \<Rightarrow> consume grace (yield w'))"

section \<open>Notions the statements use\<close>

text \<open>The messages of the queue that are for one device, in queue order.\<close>

definition is_for :: "string \<Rightarrow> qmsg \<Rightarrow> bool" where
  "is_for uuid m = (case body m of BadMessage \<Rightarrow> False | MessageText u _ \<Rightarrow> u = uuid)"

definition pending_for :: "string \<Rightarrow> world \<Rightarrow> qmsg list" where
  "pending_for uuid w = filter (is_for uuid) (queue w)"

text \<open>The id the live record of a device names, if it is a string.\<close>

definition named_id :: "world \<Rightarrow> string \<Rightarrow> string option" where
  "named_id w uuid =
     (case live_value w (key_of uuid) of
        Some (RecordText (Str s) _) \<Rightarrow> Some s
      | _ \<Rightarrow> None)"

text \<open>
  Every pending message of the device is the one its live record names, by an id that is
  not empty.
\<close>

definition tracked :: "string \<Rightarrow> world \<Rightarrow> bool" where
  "tracked uuid w =
     list_all (\<lambda>m. mid m \<noteq> [] \<and> named_id w uuid = Some (mid m)) (pending_for uuid w)"

text \<open>The calls a dropped chain makes: a deletion, a send, a write of the record.\<close>

fun task_call :: "event \<Rightarrow> bool" where
  "task_call (QDelete i) = True"
| "task_call (QSend b d) = True"
| "task_call (RedisSet k v t) = True"
| "task_call e = False"


section \<open>Worlds to run the manager in\<close>

text \<open>
  One device, never heard of: no record, no message, every service up. Then the same
  device after a heartbeat with a timeout of five seconds at time 0, and the worlds that
  follow from there with no round of the consumer: five seconds later, ten seconds later.
\<close>

definition fresh_world :: world where
  "fresh_world =
     \<lparr>now = 0, redis = Map.empty, queue = [], device = [(''dev-1'', - 2)], written = [],
      sent = 0, redis_faults = [], rsmq_faults = [], api_faults = [], trace = [],
      running = [], turns = []\<rparr>"

definition online_world :: world where
  "online_world = snd (captureEventFor ''dev-1'' 5 fresh_world)"

definition due_world :: world where
  "due_world = online_world\<lparr>now := 5\<rparr>"

definition late_world :: world where
  "late_world = online_world\<lparr>now := 10\<rparr>"

text \<open>
  The device after the round that found its \<^verbatim>\<open>Timeout\<close> message, with a grace delay of
  ten seconds, and after the chain which that round dropped has made its three calls; and
  the same when the grace delay has passed.
\<close>

definition timeout_world :: world where
  "timeout_world = fold resume [0, 0, 0] (snd (consume_round 10 due_world))"

definition offline_due_world :: world where
  "offline_due_world = timeout_world\<lparr>now := 15\<rparr>"

text \<open>Worlds that no run of the manager leads to: a record, a message written by others.\<close>

definition no_id_world :: world where
  "no_id_world =
     fresh_world\<lparr>redis := [key_of ''dev-1'' \<mapsto> (RecordText (Str []) (Num 1), 10)]\<rparr>"

definition bad_record_world :: world where
  "bad_record_world = fresh_world\<lparr>redis := [key_of ''dev-1'' \<mapsto> (BadRecord, 10)]\<rparr>"

definition odd_message_world :: world where
  "odd_message_world =
     fresh_world\<lparr>queue := [\<lparr>mid = ''m'', body = MessageText ''dev-1'' (Num 1), visible_at = 0\<rparr>]\<rparr>"


section \<open>Evaluating the model\<close>

lemmas promise_defs = resolve_def reject_def thenP_def catchP_def

lemmas service_defs = getAsync_def setAsync_def sendMessageAsync_def receiveMessageAsync_def
  deleteMessageAsync_def patch_def captureException_def delay_def

lemmas manager_defs = updateDeviceModel_def deviceOnline_def scheduleChangeOfStateForDevice_def
  captureEventFor_def handle_message_def consume_round_def

lemmas constant_defs = key_of_def REDIS_NAMESPACE_def RSMQ_READ_TIMEOUT_def message_id_def
  failing_def live_value_def next_ready_def ready_def hide_def other_than_def

lemmas chain_defs = schedule_dropped_def awaited_def yield_def resume_def


lemma updateDeviceModel_result:
  "fst (updateDeviceModel uuid s w) = Inr (\<not> failing (api_faults w))"
  by (simp add: updateDeviceModel_def promise_defs service_defs Let_def)

lemma updateDeviceModel_eq:
  "updateDeviceModel uuid s w =
     (Inr (\<not> failing (api_faults w)),
      if failing (api_faults w)
      then w\<lparr>api_faults := tl (api_faults w),
             trace := trace w @ [ApiPatch uuid (state_value s),
               Report ApiError (Some ''DeviceStateManager: Error updating the API with the device new state.'')]\<rparr>
      else w\<lparr>api_faults := tl (api_faults w),
             trace := trace w @ [ApiPatch uuid (state_value s)],
             device := patch_rows (uuid_and_not_body uuid (state_value s)) (state_value s) (device w),
             written := written w @ map (write_row (state_value s))
               (filter (selected (uuid_and_not_body uuid (state_value s))) (device w))\<rparr>)"
  by (simp add: updateDeviceModel_def promise_defs service_defs Let_def)

lemma updateDeviceModel_world:
  "snd (updateDeviceModel uuid s w) =
     (if failing (api_faults w)
      then w\<lparr>api_faults := tl (api_faults w),
             trace := trace w @ [ApiPatch uuid (state_value s),
               Report ApiError (Some ''DeviceStateManager: Error updating the API with the device new state.'')]\<rparr>
      else w\<lparr>api_faults := tl (api_faults w),
             trace := trace w @ [ApiPatch uuid (state_value s)],
             device := patch_rows (uuid_and_not_body uuid (state_value s)) (state_value s) (device w),
             written := written w @ map (write_row (state_value s))
               (filter (selected (uuid_and_not_body uuid (state_value s))) (device w))\<rparr>)"
  by (simp add: updateDeviceModel_eq)

lemma live_value_cong:
  "redis w' = redis w \<Longrightarrow> now w' = now w \<Longrightarrow> live_value w' k = live_value w k"
  by (simp add: live_value_def split: option.splits)

section \<open>The scheduler, step by step\<close>

lemma schedule_device:
  "device (snd (scheduleChangeOfStateForDevice u c n d w)) = device w"
  by (simp add: scheduleChangeOfStateForDevice_def promise_defs service_defs Let_def
      split: option.splits record_text.splits js.splits)

lemma schedule_api_faults:
  "api_faults (snd (scheduleChangeOfStateForDevice u c n d w)) = api_faults w"
  by (simp add: scheduleChangeOfStateForDevice_def promise_defs service_defs Let_def
      split: option.splits record_text.splits js.splits)

lemma schedule_rsmq_faults:
  "rsmq_faults w = [] \<Longrightarrow> rsmq_faults (snd (scheduleChangeOfStateForDevice u c n d w)) = []"
  by (simp add: scheduleChangeOfStateForDevice_def promise_defs service_defs Let_def failing_def
      split: option.splits record_text.splits js.splits)

lemma schedule_now:
  "now (snd (scheduleChangeOfStateForDevice u c n d w)) = now w"
  by (simp add: scheduleChangeOfStateForDevice_def promise_defs service_defs Let_def
      split: option.splits record_text.splits js.splits)

lemma schedule_ok:
  assumes "redis_faults w = []" and "rsmq_faults w = []"
    and "live_value w (key_of u) \<noteq> Some BadRecord"
  shows "fst (scheduleChangeOfStateForDevice u c n d w) = Inr ''OK''"
    and "queue (snd (scheduleChangeOfStateForDevice u c n d w)) =
      (case named_id w u of
         Some s \<Rightarrow> if s = [] then queue w else filter (other_than s) (queue w)
       | None \<Rightarrow> queue w) @
      [\<lparr>mid = message_id (sent w), body = MessageText u (Num (state_value n)),
        visible_at = now w + d\<rparr>]"
    and "redis (snd (scheduleChangeOfStateForDevice u c n d w)) =
      (redis w)(key_of u \<mapsto>
        (RecordText (Str (message_id (sent w))) (Num (state_value c)), now w + (d + 5)))"
    and "redis_faults (snd (scheduleChangeOfStateForDevice u c n d w)) = []"
    and "sent (snd (scheduleChangeOfStateForDevice u c n d w)) = Suc (sent w)"
  using assms
  by (simp_all add: scheduleChangeOfStateForDevice_def promise_defs service_defs Let_def
      failing_def named_id_def
      split: option.splits record_text.splits js.splits)

lemma schedule_ok_live_value:
  assumes "redis_faults w = []" and "rsmq_faults w = []"
    and "live_value w (key_of u) \<noteq> Some BadRecord"
  shows "live_value (snd (scheduleChangeOfStateForDevice u c n d w)) (key_of u) =
      Some (RecordText (Str (message_id (sent w))) (Num (state_value c)))"
  by (simp add: live_value_def schedule_ok(3) [OF assms] schedule_now)

lemma schedule_trace:
  "trace (snd (scheduleChangeOfStateForDevice u c n d w)) =
     trace w @ [RedisGet (key_of u)] @
     (if failing (redis_faults w) \<or> live_value w (key_of u) = Some BadRecord then []
      else (case live_value w (key_of u) of
              Some (RecordText i _) \<Rightarrow> if truthy i then [QDelete i] else []
            | _ \<Rightarrow> []) @
           [QSend (MessageText u (Num (state_value n))) d] @
           (if failing (case live_value w (key_of u) of
                          Some (RecordText i _) \<Rightarrow>
                            if truthy i then tl (rsmq_faults w) else rsmq_faults w
                        | _ \<Rightarrow> rsmq_faults w)
            then []
            else [RedisSet (key_of u)
                    (RecordText (Str (message_id (sent w))) (Num (state_value c))) (d + 5)]))"
  by (simp add: scheduleChangeOfStateForDevice_def promise_defs service_defs Let_def
      split: option.splits record_text.splits js.splits)

lemma schedule_failed_read:
  "failing (redis_faults w) \<Longrightarrow>
   scheduleChangeOfStateForDevice u c n d w =
     (Inl RedisError, w\<lparr>redis_faults := tl (redis_faults w), trace := trace w @ [RedisGet (key_of u)]\<rparr>)"
  by (simp add: scheduleChangeOfStateForDevice_def promise_defs service_defs Let_def)

lemma schedule_bad_record:
  "\<not> failing (redis_faults w) \<Longrightarrow> live_value w (key_of u) = Some BadRecord \<Longrightarrow>
   scheduleChangeOfStateForDevice u c n d w =
     (Inl SyntaxError, w\<lparr>redis_faults := tl (redis_faults w), trace := trace w @ [RedisGet (key_of u)]\<rparr>)"
  by (simp add: scheduleChangeOfStateForDevice_def promise_defs service_defs Let_def)

lemma schedule_failed_send:
  "\<not> failing (redis_faults w) \<Longrightarrow> live_value w (key_of u) = None \<Longrightarrow> failing (rsmq_faults w) \<Longrightarrow>
   fst (scheduleChangeOfStateForDevice u c n d w) = Inl QueueError \<and>
   queue (snd (scheduleChangeOfStateForDevice u c n d w)) = queue w"
  by (simp add: scheduleChangeOfStateForDevice_def promise_defs service_defs Let_def)

lemma schedule_result:
  "fst (scheduleChangeOfStateForDevice u c n d w) = Inr v \<Longrightarrow> v = ''OK''"
  by (auto simp: scheduleChangeOfStateForDevice_def promise_defs service_defs Let_def
      split: option.splits record_text.splits js.splits if_splits)

lemma schedule_no_patch:
  "count_list (trace (snd (scheduleChangeOfStateForDevice u c n d w))) (ApiPatch a b) =
   count_list (trace w) (ApiPatch a b)"
  by (simp add: schedule_trace split: option.splits record_text.splits)

lemma schedule_outcome:
  "fst (scheduleChangeOfStateForDevice u c n d w) =
     (if failing (redis_faults w) then Inl RedisError
      else if live_value w (key_of u) = Some BadRecord then Inl SyntaxError
      else if failing (case live_value w (key_of u) of
                         Some (RecordText i _) \<Rightarrow>
                           if truthy i then tl (rsmq_faults w) else rsmq_faults w
                       | _ \<Rightarrow> rsmq_faults w)
           then Inl QueueError
      else if failing (tl (redis_faults w)) then Inl RedisError
      else Inr ''OK'')"
  by (simp add: scheduleChangeOfStateForDevice_def promise_defs service_defs Let_def
      split: option.splits record_text.splits js.splits)

lemma schedule_no_report:
  "count_list (trace (snd (scheduleChangeOfStateForDevice u c n d w))) (Report e x) =
   count_list (trace w) (Report e x)"
  by (simp add: schedule_trace split: option.splits record_text.splits)

section \<open>The heartbeat, step by step\<close>

lemma captureEventFor_steps:
  "captureEventFor u t w =
     scheduleChangeOfStateForDevice u Online Timeout t
       (if \<not> failing (redis_faults w) \<and>
           (\<exists>i. truthy i \<and> live_value w (key_of u) = Some (RecordText i (Num (state_value Online))))
        then w\<lparr>redis_faults := tl (redis_faults w), trace := trace w @ [RedisGet (key_of u)]\<rparr>
        else snd (deviceOnline u
               (w\<lparr>redis_faults := tl (redis_faults w), trace := trace w @ [RedisGet (key_of u)]\<rparr>)))"
  by (auto simp: captureEventFor_def promise_defs getAsync_def deviceOnline_def updateDeviceModel_eq
      Let_def split: option.splits record_text.splits)

lemma intake_frame:
  fixes u w
  defines "w1 \<equiv>
       (if \<not> failing (redis_faults w) \<and>
           (\<exists>i. truthy i \<and> live_value w (key_of u) = Some (RecordText i (Num (state_value Online))))
        then w\<lparr>redis_faults := tl (redis_faults w), trace := trace w @ [RedisGet (key_of u)]\<rparr>
        else snd (deviceOnline u
               (w\<lparr>redis_faults := tl (redis_faults w), trace := trace w @ [RedisGet (key_of u)]\<rparr>)))"
  shows "redis w1 = redis w" and "now w1 = now w" and "queue w1 = queue w" and "sent w1 = sent w"
    and "rsmq_faults w1 = rsmq_faults w" and "redis_faults w1 = tl (redis_faults w)"
    and "trace w1 = trace w @ [RedisGet (key_of u)] @
       (if \<not> failing (redis_faults w) \<and>
           (\<exists>i. truthy i \<and> live_value w (key_of u) = Some (RecordText i (Num (state_value Online))))
        then []
        else [ApiPatch u (state_value Online)] @
          (if failing (api_faults w)
           then [Report ApiError
                  (Some ''DeviceStateManager: Error updating the API with the device new state.'')]
           else []))"
  by (simp_all add: w1_def deviceOnline_def updateDeviceModel_eq del: state_value.simps)

lemma named_id_cong:
  "redis w' = redis w \<Longrightarrow> now w' = now w \<Longrightarrow> named_id w' u = named_id w u"
  using live_value_cong [of w' w "key_of u"] by (simp add: named_id_def)

lemma tracked_cancelled:
  "tracked u w \<Longrightarrow>
   filter (is_for u)
     (case named_id w u of
        Some s \<Rightarrow> if s = [] then queue w else filter (other_than s) (queue w)
      | None \<Rightarrow> queue w) = []"
  by (auto simp: filter_empty_conv tracked_def pending_for_def list_all_iff other_than_def
      split: option.splits)

section \<open>The device table\<close>







section \<open>Dropped chains and their turns\<close>

lemma task_step_frame:
  "device (snd (task_step t w)) = device w"
  "written (snd (task_step t w)) = written w"
  "api_faults (snd (task_step t w)) = api_faults w"
  "now (snd (task_step t w)) = now w"
  "running (snd (task_step t w)) = running w"
  "turns (snd (task_step t w)) = turns w"
  by (induction t w rule: task_step.induct;
      simp add: promise_defs service_defs Let_def split: prod.splits sum.splits js.splits)+

lemma task_step_trace:
  "\<exists>e. trace (snd (task_step t w)) = trace w @ [e] \<and> task_call e"
  by (induction t w rule: task_step.induct;
      simp add: promise_defs service_defs Let_def split: prod.splits sum.splits js.splits)

lemma resume_frame:
  "device (resume k w) = device w"
  "written (resume k w) = written w"
  "api_faults (resume k w) = api_faults w"
  "now (resume k w) = now w"
  "turns (resume k w) = turns w"
  using task_step_frame [of "running w ! k" w]
  by (auto simp: resume_def split: prod.splits option.splits)

lemma resume_trace:
  "\<exists>bg. trace (resume k w) = trace w @ bg \<and> list_all task_call bg"
proof (cases "k < length (running w)")
  case True
  obtain e where "trace (snd (task_step (running w ! k) w)) = trace w @ [e]" and "task_call e"
    using task_step_trace by blast
  then have "trace (resume k w) = trace w @ [e] \<and> list_all task_call [e]"
    using True by (auto simp: resume_def split: prod.splits option.splits)
  then show ?thesis by blast
next
  case False
  then have "trace (resume k w) = trace w @ [] \<and> list_all task_call []"
    by (simp add: resume_def)
  then show ?thesis by blast
qed

lemma turns_frame:
  "device (fold resume ks w) = device w"
  "written (fold resume ks w) = written w"
  "api_faults (fold resume ks w) = api_faults w"
  "now (fold resume ks w) = now w"
  "turns (fold resume ks w) = turns w"
  by (induction ks arbitrary: w; simp add: resume_frame)+

lemma turns_trace:
  "\<exists>bg. trace (fold resume ks w) = trace w @ bg \<and> list_all task_call bg"
proof (induction ks arbitrary: w)
  case Nil
  have "trace (fold resume [] w) = trace w @ [] \<and> list_all task_call []" by simp
  then show ?case by blast
next
  case (Cons k ks)
  obtain b1 where 1: "trace (resume k w) = trace w @ b1" "list_all task_call b1"
    using resume_trace by blast
  obtain b2 where 2: "trace (fold resume ks (resume k w)) = trace (resume k w) @ b2"
    "list_all task_call b2"
    using Cons.IH by blast
  have "trace (fold resume (k # ks) w) = trace w @ (b1 @ b2) \<and> list_all task_call (b1 @ b2)"
    using 1 2 by simp
  then show ?case by blast
qed

lemma yield_frame:
  "device (yield w) = device w"
  "written (yield w) = written w"
  "api_faults (yield w) = api_faults w"
  "now (yield w) = now w"
  by (simp_all add: yield_def turns_frame split: list.splits)

lemma yield_trace:
  "\<exists>bg. trace (yield w) = trace w @ bg \<and> list_all task_call bg"
proof (cases "turns w")
  case Nil
  then have "trace (yield w) = trace w @ [] \<and> list_all task_call []"
    by (simp add: yield_def)
  then show ?thesis by blast
next
  case (Cons ks rest)
  then show ?thesis
    using turns_trace [of ks "w\<lparr>turns := rest\<rparr>"] by (simp add: yield_def)
qed

lemma turns_idle: "running w = [] \<Longrightarrow> fold resume ks w = w"
  by (induction ks) (simp_all add: resume_def)

lemma yield_idle: "running w = [] \<Longrightarrow> yield w = w\<lparr>turns := tl (turns w)\<rparr>"
  by (cases "turns w") (simp_all add: yield_def turns_idle)

lemma yield_idle_frame:
  assumes "running w = []"
  shows "queue (yield w) = queue w" and "trace (yield w) = trace w"
    and "running (yield w) = []" and "redis (yield w) = redis w" and "sent (yield w) = sent w"
    and "rsmq_faults (yield w) = rsmq_faults w" and "redis_faults (yield w) = redis_faults w"
  by (simp_all add: yield_idle [OF assms] assms)

lemma yield_count:
  "\<not> task_call e \<Longrightarrow> count_list (trace (yield w)) e = count_list (trace w) e"
proof -
  assume e: "\<not> task_call e"
  obtain bg where bg: "trace (yield w) = trace w @ bg" "list_all task_call bg"
    using yield_trace by blast
  have "e \<notin> set bg"
    using bg(2) e by (auto simp: list_all_iff)
  then show ?thesis
    by (simp add: bg(1) count_list_0_iff)
qed








section \<open>A round of the consumer\<close>

lemma round_fulfilled: "fst (consume_round grace w) = Inr ()"
  by (simp add: consume_round_def catchP_def captureException_def split: prod.splits sum.splits)

lemma consume_no_result: "consume grace w = Some y \<Longrightarrow> False"
proof (rule consume.raw_induct [where P = "\<lambda>_ _ _. False"])
  fix f g x z
  assume ih: "\<And>g x z. f g x = Some z \<Longrightarrow> False"
    and st: "(case consume_round g x of (Inl e, w') \<Rightarrow> Some w' | (Inr _, w') \<Rightarrow> f g (yield w')) = Some z"
  obtain r w' where rw: "consume_round g x = (r, w')" by (cases "consume_round g x")
  with round_fulfilled [of g x] have "r = Inr ()" by simp
  with st rw have "f g (yield w') = Some z" by simp
  then show False by (rule ih)
qed

lemma received_world:
  "next_ready w = Some m \<Longrightarrow> \<not> failing (rsmq_faults w) \<Longrightarrow>
   snd (receiveMessageAsync vt w) =
     w\<lparr>rsmq_faults := tl (rsmq_faults w), trace := trace w @ [QReceive vt],
       queue := map (hide (mid m) (now w + vt)) (queue w)\<rparr>"
  by (simp add: receiveMessageAsync_def Let_def)

lemma delete_world:
  "snd (catchP (deleteMessageAsync (Str i)) (\<lambda>err. captureException err None) w) =
     (if failing (rsmq_faults w)
      then w\<lparr>rsmq_faults := tl (rsmq_faults w),
             trace := trace w @ [QDelete (Str i), Report QueueError None]\<rparr>
      else w\<lparr>rsmq_faults := tl (rsmq_faults w), trace := trace w @ [QDelete (Str i)],
             queue := filter (other_than i) (queue w)\<rparr>)"
  by (simp add: catchP_def deleteMessageAsync_def captureException_def Let_def)

lemma round_received:
  assumes "next_ready w = Some m" and "\<not> failing (rsmq_faults w)"
  shows "snd (consume_round grace w) =
     (case fst (handle_message grace (body m) (yield (snd (receiveMessageAsync RSMQ_READ_TIMEOUT w)))) of
        Inl e \<Rightarrow>
          (yield (snd (handle_message grace (body m)
             (yield (snd (receiveMessageAsync RSMQ_READ_TIMEOUT w))))))
          \<lparr>trace := trace (yield (snd (handle_message grace (body m)
             (yield (snd (receiveMessageAsync RSMQ_READ_TIMEOUT w)))))) @ [Report e None]\<rparr>
      | Inr b \<Rightarrow>
          snd (catchP (deleteMessageAsync (Str (mid m))) (\<lambda>err. captureException err None)
            (yield (snd (handle_message grace (body m)
               (yield (snd (receiveMessageAsync RSMQ_READ_TIMEOUT w))))))))"
  using assms
  by (simp add: consume_round_def promise_defs awaited_def receiveMessageAsync_def
      captureException_def Let_def split: prod.splits sum.splits)

lemma round_idle:
  "\<not> failing (rsmq_faults w) \<Longrightarrow> next_ready w = None \<Longrightarrow>
   snd (consume_round grace w) =
     (yield (snd (receiveMessageAsync RSMQ_READ_TIMEOUT w)))
       \<lparr>now := now w + 1,
        trace := trace (yield (snd (receiveMessageAsync RSMQ_READ_TIMEOUT w))) @ [Sleep 1000]\<rparr>"
  by (simp add: consume_round_def promise_defs awaited_def receiveMessageAsync_def delay_def
      captureException_def Let_def yield_frame split: prod.splits sum.splits)

lemma round_receive_failed:
  "failing (rsmq_faults w) \<Longrightarrow>
   snd (consume_round grace w) =
     (yield (snd (receiveMessageAsync RSMQ_READ_TIMEOUT w)))
       \<lparr>trace := trace (yield (snd (receiveMessageAsync RSMQ_READ_TIMEOUT w))) @
          [Report QueueError (Some ''DeviceStateManager ==> Error when consuming queue'')]\<rparr>"
  by (simp add: consume_round_def promise_defs awaited_def receiveMessageAsync_def
      captureException_def Let_def split: prod.splits sum.splits)

lemma receive_frame:
  "trace (snd (receiveMessageAsync vt w)) = trace w @ [QReceive vt]"
  "now (snd (receiveMessageAsync vt w)) = now w"
  "device (snd (receiveMessageAsync vt w)) = device w"
  "written (snd (receiveMessageAsync vt w)) = written w"
  "api_faults (snd (receiveMessageAsync vt w)) = api_faults w"
  "running (snd (receiveMessageAsync vt w)) = running w"
  "turns (snd (receiveMessageAsync vt w)) = turns w"
  "rsmq_faults (snd (receiveMessageAsync vt w)) = tl (rsmq_faults w)"
  by (simp_all add: receiveMessageAsync_def Let_def split: option.splits)

lemma schedule_dropped_frame:
  "fst (schedule_dropped u c n d w) = Inr ()"
  "trace (snd (schedule_dropped u c n d w)) = trace w @ [RedisGet (key_of u)]"
  "now (snd (schedule_dropped u c n d w)) = now w"
  "device (snd (schedule_dropped u c n d w)) = device w"
  "written (snd (schedule_dropped u c n d w)) = written w"
  "api_faults (snd (schedule_dropped u c n d w)) = api_faults w"
  "rsmq_faults (snd (schedule_dropped u c n d w)) = rsmq_faults w"
  "redis_faults (snd (schedule_dropped u c n d w)) = tl (redis_faults w)"
  "queue (snd (schedule_dropped u c n d w)) = queue w"
  "redis (snd (schedule_dropped u c n d w)) = redis w"
  "sent (snd (schedule_dropped u c n d w)) = sent w"
  "turns (snd (schedule_dropped u c n d w)) = turns w"
  by (simp_all add: schedule_dropped_def getAsync_def Let_def
      split: option.splits record_text.splits)


lemma handle_message_result:
  "s = Timeout \<or> s = Offline \<Longrightarrow>
   fst (handle_message grace (MessageText u (Num (state_value s))) w) = Inr (\<not> failing (api_faults w))"
  using schedule_dropped_frame(1,6) [of u Timeout Offline grace w]
  by (auto simp: handle_message_def thenP_def updateDeviceModel_result
      split: prod.splits sum.splits)

lemma handle_message_world:
  "snd (handle_message grace (MessageText u (Num (state_value Timeout))) w) =
     snd (updateDeviceModel u Timeout (snd (schedule_dropped u Timeout Offline grace w)))"
  "snd (handle_message grace (MessageText u (Num (state_value Offline))) w) =
     snd (updateDeviceModel u Offline w)"
  using schedule_dropped_frame(1) [of u Timeout Offline grace w]
  by (auto simp: handle_message_def thenP_def split: prod.splits sum.splits)

lemma handle_message_rejects:
  "handle_message grace BadMessage w = (Inl SyntaxError, w)"
  "ns \<noteq> Num (state_value Timeout) \<Longrightarrow> ns \<noteq> Num (state_value Offline) \<Longrightarrow>
   handle_message grace (MessageText u ns) w = (Inl (UnexpectedState ns), w)"
  by (simp_all add: handle_message_def reject_def)

lemma handle_message_trace:
  "trace (snd (handle_message grace b w)) =
     trace w @
     (case b of
        BadMessage \<Rightarrow> []
      | MessageText u ns \<Rightarrow>
          if ns = Num (state_value Timeout) then
            [RedisGet (key_of u), ApiPatch u (state_value Timeout)] @
            (if failing (api_faults w)
             then [Report ApiError
                    (Some ''DeviceStateManager: Error updating the API with the device new state.'')]
             else [])
          else if ns = Num (state_value Offline) then
            [ApiPatch u (state_value Offline)] @
            (if failing (api_faults w)
             then [Report ApiError
                    (Some ''DeviceStateManager: Error updating the API with the device new state.'')]
             else [])
          else [])"
proof (cases b)
  case BadMessage
  then show ?thesis by (simp add: handle_message_rejects)
next
  case (MessageText u ns)
  consider "ns = Num (state_value Timeout)" | "ns = Num (state_value Offline)"
    | "ns \<noteq> Num (state_value Timeout)" "ns \<noteq> Num (state_value Offline)"
    by blast
  then show ?thesis
  proof cases
    case 1
    then show ?thesis
      using handle_message_world(1) [of grace u w]
      by (simp add: MessageText updateDeviceModel_world schedule_dropped_frame)
  next
    case 2
    then show ?thesis
      using handle_message_world(2) [of grace u w]
      by (simp add: MessageText updateDeviceModel_world)
  next
    case 3
    then show ?thesis
      by (simp add: MessageText handle_message_rejects)
  qed
qed

lemma handle_message_now: "now (snd (handle_message grace b w)) = now w"
proof (cases b)
  case BadMessage
  then show ?thesis by (simp add: handle_message_rejects)
next
  case (MessageText u ns)
  consider "ns = Num (state_value Timeout)" | "ns = Num (state_value Offline)"
    | "ns \<noteq> Num (state_value Timeout)" "ns \<noteq> Num (state_value Offline)"
    by blast
  then show ?thesis
  proof cases
    case 1
    then show ?thesis
      using handle_message_world(1) [of grace u w]
      by (simp add: MessageText updateDeviceModel_world schedule_dropped_frame)
  next
    case 2
    then show ?thesis
      using handle_message_world(2) [of grace u w]
      by (simp add: MessageText updateDeviceModel_world)
  next
    case 3
    then show ?thesis
      by (simp add: MessageText handle_message_rejects)
  qed
qed




lemma handle_message_table:
  assumes "s = Timeout \<or> s = Offline"
  shows "device (snd (handle_message grace (MessageText u (Num (state_value s))) w)) =
      device (snd (updateDeviceModel u s w))"
    and "written (snd (handle_message grace (MessageText u (Num (state_value s))) w)) =
      written (snd (updateDeviceModel u s w))"
  using assms handle_message_world [of grace u w]
  by (auto simp: updateDeviceModel_world schedule_dropped_frame)

lemma round_now:
  "now (snd (consume_round grace w)) =
     now w + (if \<not> failing (rsmq_faults w) \<and> next_ready w = None then 1 else 0)"
proof (cases "failing (rsmq_faults w)")
  case True
  then show ?thesis by (simp add: round_receive_failed yield_frame receive_frame)
next
  case False
  show ?thesis
  proof (cases "next_ready w")
    case None
    then show ?thesis using False by (simp add: round_idle)
  next
    case (Some m)
    then show ?thesis
      using False
      by (simp add: round_received [OF Some False] delete_world yield_frame handle_message_now
          receive_frame split: sum.splits)
  qed
qed

lemma round_sleeps:
  "count_list (trace (snd (consume_round grace w))) (Sleep ms) =
     count_list (trace w) (Sleep ms) +
     (if \<not> failing (rsmq_faults w) \<and> next_ready w = None \<and> ms = 1000 then 1 else 0)"
proof (cases "failing (rsmq_faults w)")
  case True
  then show ?thesis by (simp add: round_receive_failed yield_count receive_frame)
next
  case False
  show ?thesis
  proof (cases "next_ready w")
    case None
    then show ?thesis using False by (simp add: round_idle yield_count receive_frame)
  next
    case (Some m)
    then show ?thesis
      using False
      by (simp add: round_received [OF Some False] delete_world yield_count handle_message_trace
          receive_frame split: sum.splits message_text.splits)
  qed
qed

lemma round_table:
  assumes "next_ready w = Some m" and "\<not> failing (rsmq_faults w)"
    and "body m = MessageText u (Num (state_value s))" and "s = Timeout \<or> s = Offline"
  shows "device (snd (consume_round grace w)) = device (snd (updateDeviceModel u s w))"
    and "written (snd (consume_round grace w)) = written (snd (updateDeviceModel u s w))"
proof -
  let ?w1 = "yield (snd (receiveMessageAsync RSMQ_READ_TIMEOUT w))"
  let ?w2 = "yield (snd (handle_message grace (body m) ?w1))"
  have f: "device ?w1 = device w" "written ?w1 = written w" "api_faults ?w1 = api_faults w"
    by (simp_all add: yield_frame receive_frame)
  have r: "fst (handle_message grace (body m) ?w1) = Inr (\<not> failing (api_faults w))"
    using handle_message_result [OF assms(4), of grace u ?w1] by (simp add: assms(3) f)
  have e: "snd (consume_round grace w) =
      snd (catchP (deleteMessageAsync (Str (mid m))) (\<lambda>err. captureException err None) ?w2)"
    using round_received [OF assms(1,2), of grace] by (simp add: r)
  have d2: "device ?w2 = device (snd (updateDeviceModel u s w))"
    "written ?w2 = written (snd (updateDeviceModel u s w))"
    using f
    by (simp_all add: yield_frame handle_message_table [OF assms(4)] assms(3)
        updateDeviceModel_world del: state_value.simps)
  show "device (snd (consume_round grace w)) = device (snd (updateDeviceModel u s w))"
    by (simp add: e delete_world d2)
  show "written (snd (consume_round grace w)) = written (snd (updateDeviceModel u s w))"
    by (simp add: e delete_world d2)
qed

lemma round_unhandled:
  assumes "next_ready w = Some m" and "\<not> failing (rsmq_faults w)"
    and "body m = BadMessage \<or>
         (\<exists>u ns. body m = MessageText u ns \<and> ns \<noteq> Num (state_value Timeout) \<and>
                  ns \<noteq> Num (state_value Offline))"
  shows "snd (consume_round grace w) =
     (yield (yield (snd (receiveMessageAsync RSMQ_READ_TIMEOUT w))))
       \<lparr>trace := trace (yield (yield (snd (receiveMessageAsync RSMQ_READ_TIMEOUT w)))) @
          [Report (case body m of BadMessage \<Rightarrow> SyntaxError
                   | MessageText u ns \<Rightarrow> UnexpectedState ns) None]\<rparr>"
proof -
  let ?w1 = "yield (snd (receiveMessageAsync RSMQ_READ_TIMEOUT w))"
  have "handle_message grace (body m) ?w1 =
      (Inl (case body m of BadMessage \<Rightarrow> SyntaxError | MessageText u ns \<Rightarrow> UnexpectedState ns), ?w1)"
    using assms(3) by (auto simp: handle_message_rejects)
  then show ?thesis
    using round_received [OF assms(1,2), of grace] by simp
qed

lemma round_handled:
  assumes "next_ready w = Some m" and "\<not> failing (rsmq_faults w)"
    and "body m = MessageText u (Num (state_value s))" and "s = Timeout \<or> s = Offline"
  shows "snd (consume_round grace w) =
      snd (catchP (deleteMessageAsync (Str (mid m))) (\<lambda>err. captureException err None)
        (yield (snd (handle_message grace (body m)
           (yield (snd (receiveMessageAsync RSMQ_READ_TIMEOUT w)))))))"
    and "\<exists>pre. trace (yield (snd (handle_message grace (body m)
           (yield (snd (receiveMessageAsync RSMQ_READ_TIMEOUT w)))))) = trace w @ pre \<and>
         ApiPatch u (state_value s) \<in> set pre \<and>
         (failing (api_faults w) \<longrightarrow>
            Report ApiError
              (Some ''DeviceStateManager: Error updating the API with the device new state.'')
              \<in> set pre)"
proof -
  let ?w1 = "yield (snd (receiveMessageAsync RSMQ_READ_TIMEOUT w))"
  let ?w2 = "snd (handle_message grace (body m) ?w1)"
  let ?r = "Report ApiError
     (Some ''DeviceStateManager: Error updating the API with the device new state.'')"
  have f: "api_faults ?w1 = api_faults w"
    by (simp add: yield_frame receive_frame)
  have r: "fst (handle_message grace (body m) ?w1) = Inr (\<not> failing (api_faults w))"
    using handle_message_result [OF assms(4), of grace u ?w1] by (simp add: assms(3) f)
  show "snd (consume_round grace w) =
      snd (catchP (deleteMessageAsync (Str (mid m))) (\<lambda>err. captureException err None) (yield ?w2))"
    using round_received [OF assms(1,2), of grace] by (simp add: r)
  obtain bg1 where bg1: "trace ?w1 = trace w @ [QReceive RSMQ_READ_TIMEOUT] @ bg1"
    using yield_trace [of "snd (receiveMessageAsync RSMQ_READ_TIMEOUT w)"]
    by (auto simp: receive_frame)
  obtain h where h: "trace ?w2 = trace ?w1 @ h" "ApiPatch u (state_value s) \<in> set h"
    "failing (api_faults w) \<longrightarrow> ?r \<in> set h"
    using assms(4) handle_message_trace [of grace "body m" ?w1]
    by (auto simp: assms(3) f)
  obtain bg2 where bg2: "trace (yield ?w2) = trace ?w2 @ bg2"
    using yield_trace [of ?w2] by blast
  have "trace (yield ?w2) = trace w @ ([QReceive RSMQ_READ_TIMEOUT] @ bg1 @ h @ bg2) \<and>
      ApiPatch u (state_value s) \<in> set ([QReceive RSMQ_READ_TIMEOUT] @ bg1 @ h @ bg2) \<and>
      (failing (api_faults w) \<longrightarrow> ?r \<in> set ([QReceive RSMQ_READ_TIMEOUT] @ bg1 @ h @ bg2))"
    using bg1 h bg2 by simp
  then show "\<exists>pre. trace (yield ?w2) = trace w @ pre \<and> ApiPatch u (state_value s) \<in> set pre \<and>
      (failing (api_faults w) \<longrightarrow> ?r \<in> set pre)"
    by blast
qed

lemma round_deletes:
  assumes "next_ready w = Some m" and "\<not> failing (rsmq_faults w)"
    and "body m = MessageText u (Num (state_value s))" and "s = Timeout \<or> s = Offline"
  shows "\<exists>pre post. trace (snd (consume_round grace w)) =
           trace w @ pre @ [QDelete (Str (mid m))] @ post \<and>
         ApiPatch u (state_value s) \<in> set pre \<and>
         (failing (api_faults w) \<longrightarrow>
            Report ApiError
              (Some ''DeviceStateManager: Error updating the API with the device new state.'')
              \<in> set pre) \<and>
         (post = [] \<and> list_all (other_than (mid m)) (queue (snd (consume_round grace w))) \<or>
          post = [Report QueueError None])"
proof -
  let ?w4 = "yield (snd (handle_message grace (body m)
           (yield (snd (receiveMessageAsync RSMQ_READ_TIMEOUT w)))))"
  let ?r = "Report ApiError
     (Some ''DeviceStateManager: Error updating the API with the device new state.'')"
  note e = round_handled(1) [OF assms, of grace]
  obtain pre where pre: "trace ?w4 = trace w @ pre" "ApiPatch u (state_value s) \<in> set pre"
    "failing (api_faults w) \<longrightarrow> ?r \<in> set pre"
    using round_handled(2) [OF assms, of grace] by blast
  let ?post = "if failing (rsmq_faults ?w4) then [Report QueueError None] else []"
  have t: "trace (snd (consume_round grace w)) = trace w @ pre @ [QDelete (Str (mid m))] @ ?post"
    by (simp add: e delete_world pre(1))
  have p: "?post = [] \<and> list_all (other_than (mid m)) (queue (snd (consume_round grace w))) \<or>
      ?post = [Report QueueError None]"
    by (simp add: e delete_world list_all_iff)
  show ?thesis
    using t pre(2,3) p by blast
qed


section \<open>The chain a round drops\<close>

lemma dropped_chain_alone:
  assumes "running w = []"
  shows "fold resume [0, 0, 0] (snd (schedule_dropped u c n d w)) =
     snd (scheduleChangeOfStateForDevice u c n d w)"
proof (cases "failing (redis_faults w)")
  case True
  then show ?thesis
    using assms
    by (simp add: schedule_dropped_def scheduleChangeOfStateForDevice_def promise_defs getAsync_def
        Let_def resume_def)
next
  case False
  show ?thesis
  proof (cases "live_value w (key_of u)")
    case None
    then show ?thesis
      using assms False
      by (simp add: schedule_dropped_def scheduleChangeOfStateForDevice_def promise_defs
          service_defs Let_def resume_def)
  next
    case (Some v)
    show ?thesis
    proof (cases v)
      case BadRecord
      then show ?thesis
        using assms False Some
        by (simp add: schedule_dropped_def scheduleChangeOfStateForDevice_def promise_defs
            getAsync_def Let_def resume_def)
    next
      case (RecordText i s)
      show ?thesis
      proof (cases "truthy i")
        case True
        then show ?thesis
          using assms False Some RecordText
          by (simp add: schedule_dropped_def scheduleChangeOfStateForDevice_def promise_defs
              service_defs Let_def resume_def split: js.splits)
      next
        case f: False
        then show ?thesis
          using assms False Some RecordText
          by (simp add: schedule_dropped_def scheduleChangeOfStateForDevice_def promise_defs
              service_defs Let_def resume_def)
      qed
    qed
  qed
qed






section \<open>The worlds\<close>

lemma online_world_fields:
  "now online_world = 0"
  "queue online_world = [\<lparr>mid = ''m'', body = MessageText ''dev-1'' (Num (- 1)), visible_at = 5\<rparr>]"
  "redis online_world = [''device-online-state:dev-1'' \<mapsto> (RecordText (Str ''m'') (Num 1), 10)]"
  "sent online_world = 1"
  "redis_faults online_world = []"
  "rsmq_faults online_world = []"
  "api_faults online_world = []"
  "trace online_world = [RedisGet ''device-online-state:dev-1'', ApiPatch ''dev-1'' 1,
     RedisGet ''device-online-state:dev-1'', QSend (MessageText ''dev-1'' (Num (- 1))) 5,
     RedisSet ''device-online-state:dev-1'' (RecordText (Str ''m'') (Num 1)) 10]"
  "device online_world = [(''dev-1'', 1)]"
  "written online_world = [(''dev-1'', 1)]"
  "running online_world = []"
  "turns online_world = []"
  by (simp_all add: online_world_def fresh_world_def manager_defs promise_defs service_defs
      constant_defs Let_def patch_rows_def uuid_and_not_body_def selected_def write_row_def)

lemma due_world_fields:
  "now due_world = 5"
  "queue due_world = [\<lparr>mid = ''m'', body = MessageText ''dev-1'' (Num (- 1)), visible_at = 5\<rparr>]"
  "redis due_world = [''device-online-state:dev-1'' \<mapsto> (RecordText (Str ''m'') (Num 1), 10)]"
  "sent due_world = 1"
  "redis_faults due_world = []"
  "rsmq_faults due_world = []"
  "api_faults due_world = []"
  "device due_world = [(''dev-1'', 1)]"
  "written due_world = [(''dev-1'', 1)]"
  "running due_world = []"
  "turns due_world = []"
  "next_ready due_world =
     Some \<lparr>mid = ''m'', body = MessageText ''dev-1'' (Num (- 1)), visible_at = 5\<rparr>"
  by (simp_all add: due_world_def online_world_fields next_ready_def ready_def)

lemma timeout_round_fields:
  "now (snd (consume_round 10 due_world)) = 5"
  "queue (snd (consume_round 10 due_world)) = []"
  "redis (snd (consume_round 10 due_world)) =
     [''device-online-state:dev-1'' \<mapsto> (RecordText (Str ''m'') (Num 1), 10)]"
  "sent (snd (consume_round 10 due_world)) = 1"
  "redis_faults (snd (consume_round 10 due_world)) = []"
  "rsmq_faults (snd (consume_round 10 due_world)) = []"
  "api_faults (snd (consume_round 10 due_world)) = []"
  "device (snd (consume_round 10 due_world)) = [(''dev-1'', - 1)]"
  "written (snd (consume_round 10 due_world)) = [(''dev-1'', 1), (''dev-1'', - 1)]"
  "running (snd (consume_round 10 due_world)) =
     [Task ''dev-1'' Timeout Offline 10 (Cancelling (Str ''m''))]"
  "turns (snd (consume_round 10 due_world)) = []"
  "trace (snd (consume_round 10 due_world)) =
     trace due_world @ [QReceive 30, RedisGet ''device-online-state:dev-1'',
       ApiPatch ''dev-1'' (- 1), QDelete (Str ''m'')]"
  by (simp_all add: due_world_fields consume_round_def handle_message_def chain_defs
      updateDeviceModel_def promise_defs service_defs constant_defs Let_def patch_rows_def
      uuid_and_not_body_def selected_def write_row_def)

lemma timeout_world_fields:
  "now timeout_world = 5"
  "queue timeout_world = [\<lparr>mid = ''m0'', body = MessageText ''dev-1'' (Num 0), visible_at = 15\<rparr>]"
  "redis timeout_world = [''device-online-state:dev-1'' \<mapsto> (RecordText (Str ''m0'') (Num (- 1)), 20)]"
  "sent timeout_world = 2"
  "redis_faults timeout_world = []"
  "rsmq_faults timeout_world = []"
  "api_faults timeout_world = []"
  "device timeout_world = [(''dev-1'', - 1)]"
  "written timeout_world = [(''dev-1'', 1), (''dev-1'', - 1)]"
  "running timeout_world = []"
  "turns timeout_world = []"
  "trace timeout_world =
     trace due_world @ [QReceive 30, RedisGet ''device-online-state:dev-1'',
       ApiPatch ''dev-1'' (- 1), QDelete (Str ''m''), QDelete (Str ''m''),
       QSend (MessageText ''dev-1'' (Num 0)) 10,
       RedisSet ''device-online-state:dev-1'' (RecordText (Str ''m0'') (Num (- 1))) 15]"
  by (simp_all add: timeout_world_def timeout_round_fields resume_def
      promise_defs service_defs constant_defs Let_def)

lemma offline_due_world_fields:
  "now offline_due_world = 15"
  "queue offline_due_world = [\<lparr>mid = ''m0'', body = MessageText ''dev-1'' (Num 0), visible_at = 15\<rparr>]"
  "redis offline_due_world = [''device-online-state:dev-1'' \<mapsto> (RecordText (Str ''m0'') (Num (- 1)), 20)]"
  "sent offline_due_world = 2"
  "redis_faults offline_due_world = []"
  "rsmq_faults offline_due_world = []"
  "api_faults offline_due_world = []"
  "device offline_due_world = [(''dev-1'', - 1)]"
  "written offline_due_world = [(''dev-1'', 1), (''dev-1'', - 1)]"
  "running offline_due_world = []"
  "turns offline_due_world = []"
  "next_ready offline_due_world =
     Some \<lparr>mid = ''m0'', body = MessageText ''dev-1'' (Num 0), visible_at = 15\<rparr>"
  by (simp_all add: offline_due_world_def timeout_world_fields next_ready_def ready_def)


lemma odd_message_world_fields:
  "next_ready odd_message_world =
     Some \<lparr>mid = ''m'', body = MessageText ''dev-1'' (Num 1), visible_at = 0\<rparr>"
  "\<not> failing (rsmq_faults odd_message_world)"
  "running odd_message_world = []"
  "trace odd_message_world = []"
  "now odd_message_world = 0"
  "queue odd_message_world = [\<lparr>mid = ''m'', body = MessageText ''dev-1'' (Num 1), visible_at = 0\<rparr>]"
  by (simp_all add: odd_message_world_def fresh_world_def next_ready_def ready_def failing_def)

section \<open>Heartbeats\<close>

text \<open>
  Claim C1, as the source has it. The claim says that \<^verbatim>\<open>Online\<close> is written if and only if
  no record exists or its \<^verbatim>\<open>currentState\<close> is not \<^verbatim>\<open>Online\<close>. The source also writes
  when the id of the record is falsy (\<^verbatim>\<open>!id || currentState !== Online\<close>) and when the
  read fails (\<^verbatim>\<open>.catch(() => true)\<close>). Two runs in which a live record with
  \<^verbatim>\<open>currentState = Online\<close> exists and \<^verbatim>\<open>Online\<close> is written all the same: the record
  has an empty id; the read fails.
\<close>
theorem online_write_despite_online_record:
  "live_value no_id_world (key_of ''dev-1'') = Some (RecordText (Str []) (Num (state_value Online))) \<and>
   trace (snd (captureEventFor ''dev-1'' 5 no_id_world)) =
     [RedisGet ''device-online-state:dev-1'', ApiPatch ''dev-1'' (state_value Online),
      RedisGet ''device-online-state:dev-1'', QSend (MessageText ''dev-1'' (Num (- 1))) 5,
      RedisSet ''device-online-state:dev-1'' (RecordText (Str ''m'') (Num 1)) 10] \<and>
   live_value (online_world\<lparr>redis_faults := [True]\<rparr>) (key_of ''dev-1'') =
     Some (RecordText (Str ''m'') (Num (state_value Online))) \<and>
   drop (length (trace online_world))
     (trace (snd (captureEventFor ''dev-1'' 5 (online_world\<lparr>redis_faults := [True]\<rparr>)))) =
     [RedisGet ''device-online-state:dev-1'', ApiPatch ''dev-1'' (state_value Online),
      RedisGet ''device-online-state:dev-1'', QDelete (Str ''m''),
      QSend (MessageText ''dev-1'' (Num (- 1))) 5,
      RedisSet ''device-online-state:dev-1'' (RecordText (Str ''m0'') (Num 1)) 10]"
  by (simp add: no_id_world_def fresh_world_def online_world_fields captureEventFor_def
      deviceOnline_def scheduleChangeOfStateForDevice_def updateDeviceModel_def
      promise_defs service_defs constant_defs Let_def)

text \<open>
  Claim C1 (amended). A call to \<^verbatim>\<open>captureEventFor\<close> writes \<^verbatim>\<open>Online\<close> to the
  System-of-Record once, unless the read of the Delay Store succeeds and yields a record with
  a truthy id and \<^verbatim>\<open>currentState = Online\<close>; then it writes nothing before it
  reschedules. So the write is made exactly when the read fails, or no live record exists,
  or the record does not parse, or its id is falsy, or its state is not \<^verbatim>\<open>Online\<close>.
\<close>
theorem online_write_unless_known_online:
  "count_list (trace (snd (captureEventFor u t w))) (ApiPatch u (state_value Online)) =
   count_list (trace w) (ApiPatch u (state_value Online)) +
   (if \<not> failing (redis_faults w) \<and>
       (\<exists>i. truthy i \<and> live_value w (key_of u) = Some (RecordText i (Num (state_value Online))))
    then 0 else 1)"
  unfolding captureEventFor_steps schedule_no_patch
  by (simp add: deviceOnline_def updateDeviceModel_eq del: state_value.simps)

text \<open>The theorem at work: the first heartbeat of \<^verbatim>\<open>dev-1\<close> writes, the second does not.\<close>
theorem online_write_unless_known_online_witness:
  "count_list (trace (snd (captureEventFor ''dev-1'' 5 fresh_world))) (ApiPatch ''dev-1'' 1) = 1 \<and>
   \<not> failing (redis_faults online_world) \<and> truthy (Str ''m'') \<and>
   live_value online_world (key_of ''dev-1'') = Some (RecordText (Str ''m'') (Num (state_value Online))) \<and>
   count_list (trace (snd (captureEventFor ''dev-1'' 5 online_world))) (ApiPatch ''dev-1'' 1) = 1"
proof -
  have a: "live_value fresh_world (key_of ''dev-1'') = None" "trace fresh_world = []"
    by (simp_all add: fresh_world_def live_value_def)
  have b: "\<not> failing (redis_faults online_world)"
    "live_value online_world (key_of ''dev-1'') = Some (RecordText (Str ''m'') (Num (state_value Online)))"
    by (simp_all add: online_world_fields failing_def live_value_def key_of_def REDIS_NAMESPACE_def)
  have c: "\<exists>i. truthy i \<and> live_value online_world (key_of ''dev-1'') =
      Some (RecordText i (Num (state_value Online)))"
    using b(2) by (intro exI [of _ "Str ''m''"]) simp
  from online_write_unless_known_online [of "''dev-1''" 5 fresh_world]
  have 1: "count_list (trace (snd (captureEventFor ''dev-1'' 5 fresh_world))) (ApiPatch ''dev-1'' 1) = 1"
    by (simp add: a)
  from online_write_unless_known_online [of "''dev-1''" 5 online_world] b(1) c
  have 2: "count_list (trace (snd (captureEventFor ''dev-1'' 5 online_world))) (ApiPatch ''dev-1'' 1) = 1"
    by (simp add: online_world_fields del: state_value.simps) simp
  show ?thesis using 1 2 b by simp
qed

text \<open>
  Claim C6, as the source has it. The claim says that every call to \<^verbatim>\<open>captureEventFor\<close>
  schedules the transition to \<^verbatim>\<open>Timeout\<close>, unconditionally. The last step of the call is
  \<^verbatim>\<open>scheduleChangeOfStateForDevice\<close>, which reads the Delay Store before it sends, with
  nothing to catch a failure. The first heartbeat of \<^verbatim>\<open>dev-1\<close> with the store failing at
  that second read: \<^verbatim>\<open>Online\<close> is written, the call rejects, and no message is sent.
\<close>
theorem heartbeat_scheduler_read_fails:
  "fst (captureEventFor ''dev-1'' 5 (fresh_world\<lparr>redis_faults := [False, True]\<rparr>)) = Inl RedisError \<and>
   queue (snd (captureEventFor ''dev-1'' 5 (fresh_world\<lparr>redis_faults := [False, True]\<rparr>))) = [] \<and>
   trace (snd (captureEventFor ''dev-1'' 5 (fresh_world\<lparr>redis_faults := [False, True]\<rparr>))) =
     [RedisGet ''device-online-state:dev-1'', ApiPatch ''dev-1'' (state_value Online),
      RedisGet ''device-online-state:dev-1'']"
  by (simp add: fresh_world_def captureEventFor_def
      deviceOnline_def scheduleChangeOfStateForDevice_def updateDeviceModel_def
      promise_defs service_defs constant_defs Let_def)

text \<open>
  Claim C6 (amended). Every call to \<^verbatim>\<open>captureEventFor\<close> ends by running the scheduler for
  a transition to \<^verbatim>\<open>Timeout\<close> after \<^verbatim>\<open>timeoutSeconds\<close>, on the stores as the call found
  them: neither the outcome of the first read nor that of the write of \<^verbatim>\<open>Online\<close> has a
  part in it. A write that fails is reported. The message is sent when the scheduler gets
  that far: with the scheduler's own calls succeeding and a readable record, whatever the
  write did, the call resolves, the \<^verbatim>\<open>Timeout\<close> message is in the queue, due after
  \<^verbatim>\<open>timeoutSeconds\<close>, and the record names it with the state \<^verbatim>\<open>Online\<close>.
\<close>
theorem heartbeat_always_schedules:
  "(\<exists>w1. captureEventFor u t w = scheduleChangeOfStateForDevice u Online Timeout t w1 \<and>
         redis w1 = redis w \<and> now w1 = now w \<and> queue w1 = queue w \<and> sent w1 = sent w \<and>
         rsmq_faults w1 = rsmq_faults w \<and> redis_faults w1 = tl (redis_faults w)) \<and>
   (failing (api_faults w) \<and>
    \<not> (\<not> failing (redis_faults w) \<and>
       (\<exists>i. truthy i \<and> live_value w (key_of u) = Some (RecordText i (Num (state_value Online))))) \<longrightarrow>
      Report ApiError (Some ''DeviceStateManager: Error updating the API with the device new state.'')
        \<in> set (trace (snd (captureEventFor u t w)))) \<and>
   (tl (redis_faults w) = [] \<and> rsmq_faults w = [] \<and> live_value w (key_of u) \<noteq> Some BadRecord \<longrightarrow>
      fst (captureEventFor u t w) = Inr ''OK'' \<and>
      queue (snd (captureEventFor u t w)) =
        (case named_id w u of
           Some s \<Rightarrow> if s = [] then queue w else filter (other_than s) (queue w)
         | None \<Rightarrow> queue w) @
        [\<lparr>mid = message_id (sent w), body = MessageText u (Num (state_value Timeout)),
          visible_at = now w + t\<rparr>] \<and>
      live_value (snd (captureEventFor u t w)) (key_of u) =
        Some (RecordText (Str (message_id (sent w))) (Num (state_value Online))))"
proof -
  define w1 where "w1 =
       (if \<not> failing (redis_faults w) \<and>
           (\<exists>i. truthy i \<and> live_value w (key_of u) = Some (RecordText i (Num (state_value Online))))
        then w\<lparr>redis_faults := tl (redis_faults w), trace := trace w @ [RedisGet (key_of u)]\<rparr>
        else snd (deviceOnline u
               (w\<lparr>redis_faults := tl (redis_faults w), trace := trace w @ [RedisGet (key_of u)]\<rparr>)))"
  have eq: "captureEventFor u t w = scheduleChangeOfStateForDevice u Online Timeout t w1"
    unfolding w1_def by (rule captureEventFor_steps)
  have fr: "redis w1 = redis w" "now w1 = now w" "queue w1 = queue w" "sent w1 = sent w"
    "rsmq_faults w1 = rsmq_faults w" "redis_faults w1 = tl (redis_faults w)"
    unfolding w1_def by (rule intake_frame)+
  note tr = intake_frame(7) [where u = u and w = w, folded w1_def]
  have lv: "live_value w1 (key_of u) = live_value w (key_of u)"
    by (rule live_value_cong) (simp_all add: fr)
  have ni: "named_id w1 u = named_id w u"
    by (rule named_id_cong) (simp_all add: fr)
  have 1: "\<exists>w1. captureEventFor u t w = scheduleChangeOfStateForDevice u Online Timeout t w1 \<and>
         redis w1 = redis w \<and> now w1 = now w \<and> queue w1 = queue w \<and> sent w1 = sent w \<and>
         rsmq_faults w1 = rsmq_faults w \<and> redis_faults w1 = tl (redis_faults w)"
    by (rule exI [of _ w1]) (simp add: eq fr)
  have 2: "Report ApiError (Some ''DeviceStateManager: Error updating the API with the device new state.'')
        \<in> set (trace (snd (captureEventFor u t w)))"
    if "failing (api_faults w)" and
      "\<not> (\<not> failing (redis_faults w) \<and>
       (\<exists>i. truthy i \<and> live_value w (key_of u) = Some (RecordText i (Num (state_value Online)))))"
  proof -
    have "Report ApiError (Some ''DeviceStateManager: Error updating the API with the device new state.'')
        \<in> set (trace w1)"
      by (subst tr, subst if_not_P [OF that(2)]) (simp add: that(1))
    then show ?thesis
      by (simp add: eq schedule_trace)
  qed
  have 3: "fst (captureEventFor u t w) = Inr ''OK'' \<and>
      queue (snd (captureEventFor u t w)) =
        (case named_id w u of
           Some s \<Rightarrow> if s = [] then queue w else filter (other_than s) (queue w)
         | None \<Rightarrow> queue w) @
        [\<lparr>mid = message_id (sent w), body = MessageText u (Num (state_value Timeout)),
          visible_at = now w + t\<rparr>] \<and>
      live_value (snd (captureEventFor u t w)) (key_of u) =
        Some (RecordText (Str (message_id (sent w))) (Num (state_value Online)))"
    if "tl (redis_faults w) = []" and "rsmq_faults w = []"
      and "live_value w (key_of u) \<noteq> Some BadRecord"
  proof -
    have a: "redis_faults w1 = []" "rsmq_faults w1 = []" "live_value w1 (key_of u) \<noteq> Some BadRecord"
      using that by (simp_all add: fr lv)
    show ?thesis
      unfolding eq
      by (simp add: schedule_ok [OF a] schedule_ok_live_value [OF a] fr ni
          del: state_value.simps split: option.splits)
  qed
  show ?thesis
  proof (intro conjI impI)
    show "\<exists>w1. captureEventFor u t w = scheduleChangeOfStateForDevice u Online Timeout t w1 \<and>
         redis w1 = redis w \<and> now w1 = now w \<and> queue w1 = queue w \<and> sent w1 = sent w \<and>
         rsmq_faults w1 = rsmq_faults w \<and> redis_faults w1 = tl (redis_faults w)"
      by (rule 1)
  qed (use 2 3 in blast)+
qed

text \<open>The theorem at work: the first heartbeat of \<^verbatim>\<open>dev-1\<close>, with the write failing.\<close>
theorem heartbeat_always_schedules_witness:
  "failing (api_faults (fresh_world\<lparr>api_faults := [True]\<rparr>)) \<and>
   live_value (fresh_world\<lparr>api_faults := [True]\<rparr>) (key_of ''dev-1'') = None \<and>
   tl (redis_faults (fresh_world\<lparr>api_faults := [True]\<rparr>)) = [] \<and>
   rsmq_faults (fresh_world\<lparr>api_faults := [True]\<rparr>) = [] \<and>
   Report ApiError (Some ''DeviceStateManager: Error updating the API with the device new state.'')
     \<in> set (trace (snd (captureEventFor ''dev-1'' 5 (fresh_world\<lparr>api_faults := [True]\<rparr>)))) \<and>
   fst (captureEventFor ''dev-1'' 5 (fresh_world\<lparr>api_faults := [True]\<rparr>)) = Inr ''OK'' \<and>
   queue (snd (captureEventFor ''dev-1'' 5 (fresh_world\<lparr>api_faults := [True]\<rparr>))) =
     [\<lparr>mid = ''m'', body = MessageText ''dev-1'' (Num (state_value Timeout)), visible_at = 5\<rparr>] \<and>
   live_value (snd (captureEventFor ''dev-1'' 5 (fresh_world\<lparr>api_faults := [True]\<rparr>))) (key_of ''dev-1'') =
     Some (RecordText (Str ''m'') (Num (state_value Online)))"
proof -
  let ?w = "fresh_world\<lparr>api_faults := [True]\<rparr>"
  have h: "failing (api_faults ?w)" "live_value ?w (key_of ''dev-1'') = None"
    "tl (redis_faults ?w) = []" "rsmq_faults ?w = []"
    by (simp_all add: fresh_world_def failing_def live_value_def)
  have f: "named_id ?w ''dev-1'' = None" "queue ?w = []" "sent ?w = 0" "now ?w = 0"
    by (simp_all add: fresh_world_def named_id_def live_value_def)
  from heartbeat_always_schedules [of "''dev-1''" 5 ?w] h
  show ?thesis by (simp add: f message_id_def del: state_value.simps)
qed

text \<open>
  Claim C9, as the source has it. The claim says that with a record that cannot be parsed the
  \<^verbatim>\<open>Timeout\<close> transition is still scheduled. The error is swallowed in
  \<^verbatim>\<open>captureEventFor\<close>, but the scheduler reads the same record again, and there
  \<^verbatim>\<open>JSON.parse\<close> throws with nothing to catch it: the call rejects and no message is sent.
\<close>
theorem heartbeat_with_bad_record:
  "fst (captureEventFor ''dev-1'' 5 bad_record_world) = Inl SyntaxError \<and>
   queue (snd (captureEventFor ''dev-1'' 5 bad_record_world)) = [] \<and>
   trace (snd (captureEventFor ''dev-1'' 5 bad_record_world)) =
     [RedisGet ''device-online-state:dev-1'', ApiPatch ''dev-1'' (state_value Online),
      RedisGet ''device-online-state:dev-1'']"
  by (simp add: bad_record_world_def fresh_world_def captureEventFor_def
      deviceOnline_def scheduleChangeOfStateForDevice_def updateDeviceModel_def
      promise_defs service_defs constant_defs Let_def)

text \<open>
  Claim C9 (amended). If the read of the Delay Store at the start of \<^verbatim>\<open>captureEventFor\<close>
  fails, the error is ignored without a report and the device is treated as freshly
  online: \<^verbatim>\<open>Online\<close> is written and the scheduler runs, which schedules the
  \<^verbatim>\<open>Timeout\<close> transition when its own calls succeed and the record is readable. If the
  record cannot be parsed, the error is ignored just so and \<^verbatim>\<open>Online\<close> is written, but
  the scheduler then rejects on the same record (or on its own failed read): nothing is
  sent and the Delay Store is left as it was.
\<close>
theorem failed_read_treated_as_fresh:
  "(failing (redis_faults w) \<longrightarrow>
      captureEventFor u t w =
        scheduleChangeOfStateForDevice u Online Timeout t
          (snd (deviceOnline u
             (w\<lparr>redis_faults := tl (redis_faults w), trace := trace w @ [RedisGet (key_of u)]\<rparr>)))) \<and>
   (failing (redis_faults w) \<and> tl (redis_faults w) = [] \<and> rsmq_faults w = [] \<and>
    live_value w (key_of u) \<noteq> Some BadRecord \<longrightarrow>
      fst (captureEventFor u t w) = Inr ''OK'' \<and>
      \<lparr>mid = message_id (sent w), body = MessageText u (Num (state_value Timeout)),
        visible_at = now w + t\<rparr> \<in> set (queue (snd (captureEventFor u t w))) \<and>
      live_value (snd (captureEventFor u t w)) (key_of u) =
        Some (RecordText (Str (message_id (sent w))) (Num (state_value Online)))) \<and>
   (\<not> failing (redis_faults w) \<and> live_value w (key_of u) = Some BadRecord \<longrightarrow>
      trace (snd (captureEventFor u t w)) =
        trace w @ [RedisGet (key_of u), ApiPatch u (state_value Online)] @
        (if failing (api_faults w)
         then [Report ApiError
                (Some ''DeviceStateManager: Error updating the API with the device new state.'')]
         else []) @
        [RedisGet (key_of u)] \<and>
      fst (captureEventFor u t w) =
        (if failing (tl (redis_faults w)) then Inl RedisError else Inl SyntaxError) \<and>
      queue (snd (captureEventFor u t w)) = queue w \<and>
      redis (snd (captureEventFor u t w)) = redis w)"
proof -
  have 1: "captureEventFor u t w =
        scheduleChangeOfStateForDevice u Online Timeout t
          (snd (deviceOnline u
             (w\<lparr>redis_faults := tl (redis_faults w), trace := trace w @ [RedisGet (key_of u)]\<rparr>)))"
    if "failing (redis_faults w)"
    using that by (simp add: captureEventFor_steps)
  have 2: "fst (captureEventFor u t w) = Inr ''OK'' \<and>
      \<lparr>mid = message_id (sent w), body = MessageText u (Num (state_value Timeout)),
        visible_at = now w + t\<rparr> \<in> set (queue (snd (captureEventFor u t w))) \<and>
      live_value (snd (captureEventFor u t w)) (key_of u) =
        Some (RecordText (Str (message_id (sent w))) (Num (state_value Online)))"
    if a: "failing (redis_faults w) \<and> tl (redis_faults w) = [] \<and> rsmq_faults w = [] \<and>
    live_value w (key_of u) \<noteq> Some BadRecord"
  proof -
  define w1 where "w1 = snd (deviceOnline u
             (w\<lparr>redis_faults := tl (redis_faults w), trace := trace w @ [RedisGet (key_of u)]\<rparr>))"
  have eq: "captureEventFor u t w = scheduleChangeOfStateForDevice u Online Timeout t w1"
    using a by (simp add: captureEventFor_steps w1_def)
  have fr: "redis w1 = redis w" "now w1 = now w" "queue w1 = queue w" "sent w1 = sent w"
    "rsmq_faults w1 = rsmq_faults w" "redis_faults w1 = tl (redis_faults w)"
    by (simp_all add: w1_def deviceOnline_def updateDeviceModel_eq)
  have lv: "live_value w1 (key_of u) = live_value w (key_of u)"
    by (rule live_value_cong) (simp_all add: fr)
  have ok: "redis_faults w1 = []" "rsmq_faults w1 = []" "live_value w1 (key_of u) \<noteq> Some BadRecord"
    using a by (simp_all add: fr lv)
    show ?thesis
      unfolding eq
      by (simp add: schedule_ok [OF ok] schedule_ok_live_value [OF ok] fr del: state_value.simps)
  qed
  have 3: "trace (snd (captureEventFor u t w)) =
        trace w @ [RedisGet (key_of u), ApiPatch u (state_value Online)] @
        (if failing (api_faults w)
         then [Report ApiError
                (Some ''DeviceStateManager: Error updating the API with the device new state.'')]
         else []) @
        [RedisGet (key_of u)] \<and>
      fst (captureEventFor u t w) =
        (if failing (tl (redis_faults w)) then Inl RedisError else Inl SyntaxError) \<and>
      queue (snd (captureEventFor u t w)) = queue w \<and>
      redis (snd (captureEventFor u t w)) = redis w"
    if a: "\<not> failing (redis_faults w) \<and> live_value w (key_of u) = Some BadRecord"
  proof -
  define w1 where "w1 = snd (deviceOnline u
             (w\<lparr>redis_faults := tl (redis_faults w), trace := trace w @ [RedisGet (key_of u)]\<rparr>))"
  have eq: "captureEventFor u t w = scheduleChangeOfStateForDevice u Online Timeout t w1"
    using a by (simp add: captureEventFor_steps w1_def)
  have fr: "redis w1 = redis w" "now w1 = now w" "queue w1 = queue w"
    "redis_faults w1 = tl (redis_faults w)"
    "trace w1 = trace w @ [RedisGet (key_of u), ApiPatch u (state_value Online)] @
        (if failing (api_faults w)
         then [Report ApiError
                (Some ''DeviceStateManager: Error updating the API with the device new state.'')]
         else [])"
    by (simp_all add: w1_def deviceOnline_def updateDeviceModel_eq)
  have lv: "live_value w1 (key_of u) = Some BadRecord"
    using live_value_cong [of w1 w "key_of u"] a by (simp add: fr)
  show ?thesis
  proof (cases "failing (redis_faults w1)")
    case True
    then show ?thesis
      unfolding eq using fr by (simp add: schedule_failed_read)
  next
    case False
    then show ?thesis
      unfolding eq using fr by (simp add: schedule_bad_record [OF False lv])
  qed
  qed
  show ?thesis
    by (rule conjI, rule impI, rule 1, assumption, rule conjI, rule impI, rule 2, assumption,
        rule impI, rule 3, assumption)
qed

text \<open>The theorem at work: a failed first read, and a record that cannot be parsed.\<close>
theorem failed_read_treated_as_fresh_witness:
  "failing (redis_faults (fresh_world\<lparr>redis_faults := [True]\<rparr>)) \<and>
   tl (redis_faults (fresh_world\<lparr>redis_faults := [True]\<rparr>)) = [] \<and>
   rsmq_faults (fresh_world\<lparr>redis_faults := [True]\<rparr>) = [] \<and>
   live_value (fresh_world\<lparr>redis_faults := [True]\<rparr>) (key_of ''dev-1'') \<noteq> Some BadRecord \<and>
   fst (captureEventFor ''dev-1'' 5 (fresh_world\<lparr>redis_faults := [True]\<rparr>)) = Inr ''OK'' \<and>
   \<lparr>mid = ''m'', body = MessageText ''dev-1'' (Num (state_value Timeout)), visible_at = 5\<rparr>
     \<in> set (queue (snd (captureEventFor ''dev-1'' 5 (fresh_world\<lparr>redis_faults := [True]\<rparr>)))) \<and>
   \<not> failing (redis_faults bad_record_world) \<and>
   live_value bad_record_world (key_of ''dev-1'') = Some BadRecord \<and>
   fst (captureEventFor ''dev-1'' 5 bad_record_world) = Inl SyntaxError \<and>
   queue (snd (captureEventFor ''dev-1'' 5 bad_record_world)) = []"
proof -
  let ?w = "fresh_world\<lparr>redis_faults := [True]\<rparr>"
  have h: "failing (redis_faults ?w)" "tl (redis_faults ?w) = []" "rsmq_faults ?w = []"
    "live_value ?w (key_of ''dev-1'') \<noteq> Some BadRecord"
    by (simp_all add: fresh_world_def failing_def live_value_def)
  have f: "sent ?w = 0" "now ?w = 0" "message_id 0 = ''m''"
    by (simp_all add: fresh_world_def message_id_def)
  have g: "\<not> failing (redis_faults bad_record_world)"
    "live_value bad_record_world (key_of ''dev-1'') = Some BadRecord"
    "queue bad_record_world = []" "tl (redis_faults bad_record_world) = []"
    by (simp_all add: bad_record_world_def fresh_world_def failing_def live_value_def)
  from failed_read_treated_as_fresh [of ?w "''dev-1''" 5, THEN conjunct2, THEN conjunct1] h
  have a: "fst (captureEventFor ''dev-1'' 5 ?w) = Inr ''OK'' \<and>
   \<lparr>mid = ''m'', body = MessageText ''dev-1'' (Num (state_value Timeout)), visible_at = 5\<rparr>
     \<in> set (queue (snd (captureEventFor ''dev-1'' 5 ?w)))"
    by (simp add: f del: state_value.simps)
  from failed_read_treated_as_fresh [of bad_record_world "''dev-1''" 5, THEN conjunct2,
      THEN conjunct2] g
  have b: "fst (captureEventFor ''dev-1'' 5 bad_record_world) = Inl SyntaxError \<and>
   queue (snd (captureEventFor ''dev-1'' 5 bad_record_world)) = []"
    by (simp add: failing_def)
  show ?thesis using h g a b by simp
qed

text \<open>
  Claim C5, as the source has it. The claim says that \<^verbatim>\<open>captureEventFor\<close> swallows every
  failure after reporting it and never passes an error of the scheduler on to its caller.
  The promise it returns is the scheduler's, with no \<^verbatim>\<open>.catch\<close>. With the queue down at
  the send: the call rejects with the queue's error, and nothing was reported.
\<close>
theorem failed_send_reaches_caller:
  "fst (captureEventFor ''dev-1'' 5 (fresh_world\<lparr>rsmq_faults := [True]\<rparr>)) = Inl QueueError \<and>
   trace (snd (captureEventFor ''dev-1'' 5 (fresh_world\<lparr>rsmq_faults := [True]\<rparr>))) =
     [RedisGet ''device-online-state:dev-1'', ApiPatch ''dev-1'' (state_value Online),
      RedisGet ''device-online-state:dev-1'', QSend (MessageText ''dev-1'' (Num (- 1))) 5]"
  by (simp add: fresh_world_def captureEventFor_def
      deviceOnline_def scheduleChangeOfStateForDevice_def updateDeviceModel_def
      promise_defs service_defs constant_defs Let_def)

text \<open>
  Claim C5 (amended). \<^verbatim>\<open>captureEventFor\<close> swallows two failures: that of its first read
  of the Delay Store, of which the outcome of the call does not depend and which it does
  not report, and that of the write of \<^verbatim>\<open>Online\<close>, of which the outcome does not depend
  either and which it reports once; it reports nothing else. The failures of the scheduler
  it passes on to its caller: the call rejects with the error of the Delay Store when the
  scheduler's read fails, with the syntax error when the record does not parse, with the
  error of the queue when the send fails, with the error of the Delay Store when the final
  write of the record fails; a failed deletion of the old message is ignored. Otherwise it
  resolves, with the reply of the Delay Store to the final write, not with a boolean.
\<close>
theorem heartbeat_failures:
  "fst (captureEventFor u t w) =
     (if failing (tl (redis_faults w)) then Inl RedisError
      else if live_value w (key_of u) = Some BadRecord then Inl SyntaxError
      else if failing (case live_value w (key_of u) of
                         Some (RecordText i _) \<Rightarrow>
                           if truthy i then tl (rsmq_faults w) else rsmq_faults w
                       | _ \<Rightarrow> rsmq_faults w)
           then Inl QueueError
      else if failing (tl (tl (redis_faults w))) then Inl RedisError
      else Inr ''OK'') \<and>
   (\<forall>e x. count_list (trace (snd (captureEventFor u t w))) (Report e x) =
      count_list (trace w) (Report e x) +
      (if e = ApiError \<and>
          x = Some ''DeviceStateManager: Error updating the API with the device new state.'' \<and>
          failing (api_faults w) \<and>
          \<not> (\<not> failing (redis_faults w) \<and>
             (\<exists>i. truthy i \<and>
                  live_value w (key_of u) = Some (RecordText i (Num (state_value Online)))))
       then 1 else 0))"
proof -
  define w1 where "w1 =
       (if \<not> failing (redis_faults w) \<and>
           (\<exists>i. truthy i \<and> live_value w (key_of u) = Some (RecordText i (Num (state_value Online))))
        then w\<lparr>redis_faults := tl (redis_faults w), trace := trace w @ [RedisGet (key_of u)]\<rparr>
        else snd (deviceOnline u
               (w\<lparr>redis_faults := tl (redis_faults w), trace := trace w @ [RedisGet (key_of u)]\<rparr>)))"
  have e: "captureEventFor u t w = scheduleChangeOfStateForDevice u Online Timeout t w1"
    unfolding w1_def by (rule captureEventFor_steps)
  note f = intake_frame [where u = u and w = w, folded w1_def]
  have lv: "live_value w1 (key_of u) = live_value w (key_of u)"
    using live_value_cong [of w1 w "key_of u"] f(1,2) by simp
  have 1: "fst (captureEventFor u t w) =
     (if failing (tl (redis_faults w)) then Inl RedisError
      else if live_value w (key_of u) = Some BadRecord then Inl SyntaxError
      else if failing (case live_value w (key_of u) of
                         Some (RecordText i _) \<Rightarrow>
                           if truthy i then tl (rsmq_faults w) else rsmq_faults w
                       | _ \<Rightarrow> rsmq_faults w)
           then Inl QueueError
      else if failing (tl (tl (redis_faults w))) then Inl RedisError
      else Inr ''OK'')"
    unfolding e schedule_outcome lv f(5) f(6) by (rule refl)
  have 2: "count_list (trace (snd (captureEventFor u t w))) (Report e x) =
      count_list (trace w) (Report e x) +
      (if e = ApiError \<and>
          x = Some ''DeviceStateManager: Error updating the API with the device new state.'' \<and>
          failing (api_faults w) \<and>
          \<not> (\<not> failing (redis_faults w) \<and>
             (\<exists>i. truthy i \<and>
                  live_value w (key_of u) = Some (RecordText i (Num (state_value Online)))))
       then 1 else 0)" for e x
    unfolding e schedule_no_report f(7) by (simp del: state_value.simps)
  show ?thesis
    by (rule conjI, rule 1, rule allI, rule allI, rule 2)
qed

text \<open>
  The theorem at work, on the first heartbeat of \<^verbatim>\<open>dev-1\<close>: the first read fails and
  the call resolves, nothing reported; the write fails, is reported, and the call resolves;
  the send fails and the call rejects, nothing reported; the final write fails and the call
  rejects.
\<close>
theorem heartbeat_failures_witness:
  "fst (captureEventFor ''dev-1'' 5 (fresh_world\<lparr>redis_faults := [True]\<rparr>)) = Inr ''OK'' \<and>
   count_list (trace (snd (captureEventFor ''dev-1'' 5 (fresh_world\<lparr>redis_faults := [True]\<rparr>))))
     (Report RedisError None) = 0 \<and>
   fst (captureEventFor ''dev-1'' 5 (fresh_world\<lparr>api_faults := [True]\<rparr>)) = Inr ''OK'' \<and>
   count_list (trace (snd (captureEventFor ''dev-1'' 5 (fresh_world\<lparr>api_faults := [True]\<rparr>))))
     (Report ApiError (Some ''DeviceStateManager: Error updating the API with the device new state.''))
     = 1 \<and>
   fst (captureEventFor ''dev-1'' 5 (fresh_world\<lparr>rsmq_faults := [True]\<rparr>)) = Inl QueueError \<and>
   count_list (trace (snd (captureEventFor ''dev-1'' 5 (fresh_world\<lparr>rsmq_faults := [True]\<rparr>))))
     (Report QueueError None) = 0 \<and>
   fst (captureEventFor ''dev-1'' 5 (fresh_world\<lparr>redis_faults := [False, False, True]\<rparr>)) =
     Inl RedisError"
proof -
  have f: "live_value (fresh_world\<lparr>redis_faults := [True]\<rparr>) (key_of ''dev-1'') = None"
    "live_value (fresh_world\<lparr>api_faults := [True]\<rparr>) (key_of ''dev-1'') = None"
    "live_value (fresh_world\<lparr>rsmq_faults := [True]\<rparr>) (key_of ''dev-1'') = None"
    "live_value (fresh_world\<lparr>redis_faults := [False, False, True]\<rparr>) (key_of ''dev-1'') = None"
    "trace fresh_world = []" "redis_faults fresh_world = []" "rsmq_faults fresh_world = []"
    "api_faults fresh_world = []"
    by (simp_all add: fresh_world_def live_value_def)
  from heartbeat_failures [of "''dev-1''" 5 "fresh_world\<lparr>redis_faults := [True]\<rparr>"]
  have a: "fst (captureEventFor ''dev-1'' 5 (fresh_world\<lparr>redis_faults := [True]\<rparr>)) = Inr ''OK'' \<and>
   count_list (trace (snd (captureEventFor ''dev-1'' 5 (fresh_world\<lparr>redis_faults := [True]\<rparr>))))
     (Report RedisError None) = 0"
    by (simp add: f failing_def)
  from heartbeat_failures [of "''dev-1''" 5 "fresh_world\<lparr>api_faults := [True]\<rparr>"]
  have b: "fst (captureEventFor ''dev-1'' 5 (fresh_world\<lparr>api_faults := [True]\<rparr>)) = Inr ''OK'' \<and>
   count_list (trace (snd (captureEventFor ''dev-1'' 5 (fresh_world\<lparr>api_faults := [True]\<rparr>))))
     (Report ApiError (Some ''DeviceStateManager: Error updating the API with the device new state.''))
     = 1"
    by (simp add: f failing_def)
  from heartbeat_failures [of "''dev-1''" 5 "fresh_world\<lparr>rsmq_faults := [True]\<rparr>"]
  have c: "fst (captureEventFor ''dev-1'' 5 (fresh_world\<lparr>rsmq_faults := [True]\<rparr>)) = Inl QueueError \<and>
   count_list (trace (snd (captureEventFor ''dev-1'' 5 (fresh_world\<lparr>rsmq_faults := [True]\<rparr>))))
     (Report QueueError None) = 0"
    by (simp add: f failing_def)
  from heartbeat_failures [of "''dev-1''" 5 "fresh_world\<lparr>redis_faults := [False, False, True]\<rparr>"]
  have d: "fst (captureEventFor ''dev-1'' 5 (fresh_world\<lparr>redis_faults := [False, False, True]\<rparr>)) =
     Inl RedisError"
    by (simp add: f failing_def)
  show ?thesis using a b c d by simp
qed

section \<open>Rescheduling\<close>

text \<open>
  Claim C4, as the source has it. The claim concludes that at most one pending message exists
  for a device at any time. The deletion of the old message is an attempt whose failure the
  source ignores (\<^verbatim>\<open>.catch(noop)\<close>), and the record that names the old message expires
  five seconds after the message is due. Two runs with every later step succeeding: the
  deletion fails, and the scheduler is called ten seconds after a heartbeat whose message
  nobody consumed. Either way two messages are pending for \<^verbatim>\<open>dev-1\<close>.
\<close>
theorem two_pending_after_reschedule:
  "pending_for ''dev-1''
     (snd (scheduleChangeOfStateForDevice ''dev-1'' Online Timeout 5
        (online_world\<lparr>rsmq_faults := [True]\<rparr>))) =
     [\<lparr>mid = ''m'', body = MessageText ''dev-1'' (Num (- 1)), visible_at = 5\<rparr>,
      \<lparr>mid = ''m0'', body = MessageText ''dev-1'' (Num (- 1)), visible_at = 5\<rparr>] \<and>
   pending_for ''dev-1''
     (snd (scheduleChangeOfStateForDevice ''dev-1'' Online Timeout 5 late_world)) =
     [\<lparr>mid = ''m'', body = MessageText ''dev-1'' (Num (- 1)), visible_at = 5\<rparr>,
      \<lparr>mid = ''m0'', body = MessageText ''dev-1'' (Num (- 1)), visible_at = 15\<rparr>]"
  by (simp add: late_world_def online_world_fields pending_for_def is_for_def
      scheduleChangeOfStateForDevice_def promise_defs service_defs constant_defs Let_def)

text \<open>
  Claim C4 (amended). Every call to \<^verbatim>\<open>scheduleChangeOfStateForDevice\<close> first reads the
  record of the device. When the read fails or the record does not parse, nothing else is
  done. Otherwise, if the record holds an id that is truthy, the call asks for the deletion
  of that message, whatever comes of it, and then sends exactly one new message, and writes
  the record if the send succeeded. When the call runs alone, nothing else touching the
  queue or the Delay Store between its calls, as \<open>scheduleChangeOfStateForDevice\<close> has it
  here, when none of its calls fails, and when every pending message of the device is the
  one its live record names, then after the call exactly one message is pending for the
  device, the new one, and the record names it.
\<close>
theorem reschedule_replaces_pending:
  "trace (snd (scheduleChangeOfStateForDevice u c n d w)) =
     trace w @ [RedisGet (key_of u)] @
     (if failing (redis_faults w) \<or> live_value w (key_of u) = Some BadRecord then []
      else (case live_value w (key_of u) of
              Some (RecordText i _) \<Rightarrow> if truthy i then [QDelete i] else []
            | _ \<Rightarrow> []) @
           [QSend (MessageText u (Num (state_value n))) d] @
           (if failing (case live_value w (key_of u) of
                          Some (RecordText i _) \<Rightarrow>
                            if truthy i then tl (rsmq_faults w) else rsmq_faults w
                        | _ \<Rightarrow> rsmq_faults w)
            then []
            else [RedisSet (key_of u)
                    (RecordText (Str (message_id (sent w))) (Num (state_value c))) (d + 5)])) \<and>
   (tracked u w \<and> redis_faults w = [] \<and> rsmq_faults w = [] \<and>
    live_value w (key_of u) \<noteq> Some BadRecord \<longrightarrow>
      pending_for u (snd (scheduleChangeOfStateForDevice u c n d w)) =
        [\<lparr>mid = message_id (sent w), body = MessageText u (Num (state_value n)),
          visible_at = now w + d\<rparr>] \<and>
      named_id (snd (scheduleChangeOfStateForDevice u c n d w)) u = Some (message_id (sent w)) \<and>
      tracked u (snd (scheduleChangeOfStateForDevice u c n d w)))"
proof (rule conjI)
  show "trace (snd (scheduleChangeOfStateForDevice u c n d w)) =
     trace w @ [RedisGet (key_of u)] @
     (if failing (redis_faults w) \<or> live_value w (key_of u) = Some BadRecord then []
      else (case live_value w (key_of u) of
              Some (RecordText i _) \<Rightarrow> if truthy i then [QDelete i] else []
            | _ \<Rightarrow> []) @
           [QSend (MessageText u (Num (state_value n))) d] @
           (if failing (case live_value w (key_of u) of
                          Some (RecordText i _) \<Rightarrow>
                            if truthy i then tl (rsmq_faults w) else rsmq_faults w
                        | _ \<Rightarrow> rsmq_faults w)
            then []
            else [RedisSet (key_of u)
                    (RecordText (Str (message_id (sent w))) (Num (state_value c))) (d + 5)]))"
    by (rule schedule_trace)
next
  show "tracked u w \<and> redis_faults w = [] \<and> rsmq_faults w = [] \<and>
    live_value w (key_of u) \<noteq> Some BadRecord \<longrightarrow>
      pending_for u (snd (scheduleChangeOfStateForDevice u c n d w)) =
        [\<lparr>mid = message_id (sent w), body = MessageText u (Num (state_value n)),
          visible_at = now w + d\<rparr>] \<and>
      named_id (snd (scheduleChangeOfStateForDevice u c n d w)) u = Some (message_id (sent w)) \<and>
      tracked u (snd (scheduleChangeOfStateForDevice u c n d w))"
  proof (rule impI)
    assume a: "tracked u w \<and> redis_faults w = [] \<and> rsmq_faults w = [] \<and>
      live_value w (key_of u) \<noteq> Some BadRecord"
    then have ok: "redis_faults w = []" "rsmq_faults w = []"
      "live_value w (key_of u) \<noteq> Some BadRecord"
      by simp_all
    let ?w' = "snd (scheduleChangeOfStateForDevice u c n d w)"
    have p: "pending_for u ?w' =
        [\<lparr>mid = message_id (sent w), body = MessageText u (Num (state_value n)),
          visible_at = now w + d\<rparr>]"
      using a
      by (simp add: pending_for_def schedule_ok(2) [OF ok] tracked_cancelled is_for_def)
    have i: "named_id ?w' u = Some (message_id (sent w))"
      by (simp add: named_id_def schedule_ok_live_value [OF ok])
    have t: "tracked u ?w'"
      by (simp add: tracked_def p i message_id_def)
    show "pending_for u ?w' =
        [\<lparr>mid = message_id (sent w), body = MessageText u (Num (state_value n)),
          visible_at = now w + d\<rparr>] \<and>
      named_id ?w' u = Some (message_id (sent w)) \<and> tracked u ?w'"
      using p i t by simp
  qed
qed

text \<open>The theorem at work: \<^verbatim>\<open>dev-1\<close> is rescheduled while its first message is pending.\<close>
theorem reschedule_replaces_pending_witness:
  "tracked ''dev-1'' online_world \<and> redis_faults online_world = [] \<and>
   rsmq_faults online_world = [] \<and>
   live_value online_world (key_of ''dev-1'') \<noteq> Some BadRecord \<and>
   pending_for ''dev-1'' online_world =
     [\<lparr>mid = ''m'', body = MessageText ''dev-1'' (Num (- 1)), visible_at = 5\<rparr>] \<and>
   pending_for ''dev-1'' (snd (scheduleChangeOfStateForDevice ''dev-1'' Online Timeout 7 online_world)) =
     [\<lparr>mid = ''m0'', body = MessageText ''dev-1'' (Num (- 1)), visible_at = 7\<rparr>] \<and>
   named_id (snd (scheduleChangeOfStateForDevice ''dev-1'' Online Timeout 7 online_world)) ''dev-1'' =
     Some ''m0''"
proof -
  have l: "live_value online_world (key_of ''dev-1'') = Some (RecordText (Str ''m'') (Num 1))"
    by (simp add: online_world_fields live_value_def key_of_def REDIS_NAMESPACE_def)
  have p: "pending_for ''dev-1'' online_world =
     [\<lparr>mid = ''m'', body = MessageText ''dev-1'' (Num (- 1)), visible_at = 5\<rparr>]"
    by (simp add: pending_for_def online_world_fields is_for_def)
  have h: "tracked ''dev-1'' online_world \<and> redis_faults online_world = [] \<and>
     rsmq_faults online_world = [] \<and> live_value online_world (key_of ''dev-1'') \<noteq> Some BadRecord"
    by (simp add: tracked_def p named_id_def l online_world_fields)
  from reschedule_replaces_pending [of "''dev-1''" Online Timeout 7 online_world,
      THEN conjunct2, rule_format, OF h]
  have "pending_for ''dev-1'' (snd (scheduleChangeOfStateForDevice ''dev-1'' Online Timeout 7 online_world)) =
     [\<lparr>mid = ''m0'', body = MessageText ''dev-1'' (Num (- 1)), visible_at = 7\<rparr>] \<and>
   named_id (snd (scheduleChangeOfStateForDevice ''dev-1'' Online Timeout 7 online_world)) ''dev-1'' =
     Some ''m0''"
    by (simp add: online_world_fields message_id_def)
  then show ?thesis using h p by simp
qed

section \<open>The consumer loop\<close>

text \<open>
  Claim C8, as the source has it. The claim says that after a failure of the queue the loop
  retries after a fixed delay. In the source only the branch for an empty reply waits
  (\<^verbatim>\<open>Bluebird.delay(1000)\<close>); the handler of a failed receive reports and the next round
  starts at once. With the queue down: the round reports, does not sleep, and the clock
  stands still.
\<close>
theorem failed_receive_no_delay:
  "trace (snd (consume_round 10 (fresh_world\<lparr>rsmq_faults := [True]\<rparr>))) =
     [QReceive 30, Report QueueError (Some ''DeviceStateManager ==> Error when consuming queue'')] \<and>
   now (snd (consume_round 10 (fresh_world\<lparr>rsmq_faults := [True]\<rparr>))) = now fresh_world"
  by (simp add: fresh_world_def consume_round_def promise_defs service_defs failing_def
      RSMQ_READ_TIMEOUT_def Let_def awaited_def yield_def)

text \<open>
  Claim C8 (amended). Every round of the consumer ends fulfilled, whatever failed in it, so
  the last \<^verbatim>\<open>.then\<close> always starts the next round: the loop never comes to an end. When
  the queue has no ready message the round waits one second (\<^verbatim>\<open>Bluebird.delay(1000)\<close>).
  When the receive fails the round reports the error and waits for nothing: a round sleeps
  only when the queue was idle, for one second, and only then does the clock move within a
  round. In both cases the round makes no other call; the calls between its two are those
  of dropped chains, and with no chain running there is none.
\<close>
theorem consume_never_returns:
  "fst (consume_round grace w) = Inr () \<and>
   consume grace w = None \<and>
   (\<not> failing (rsmq_faults w) \<and> next_ready w = None \<longrightarrow>
      (\<exists>bg. trace (snd (consume_round grace w)) =
              trace w @ [QReceive RSMQ_READ_TIMEOUT] @ bg @ [Sleep 1000] \<and>
            list_all task_call bg) \<and>
      (running w = [] \<longrightarrow>
         trace (snd (consume_round grace w)) = trace w @ [QReceive RSMQ_READ_TIMEOUT, Sleep 1000])) \<and>
   (failing (rsmq_faults w) \<longrightarrow>
      (\<exists>bg. trace (snd (consume_round grace w)) =
              trace w @ [QReceive RSMQ_READ_TIMEOUT] @ bg @
              [Report QueueError (Some ''DeviceStateManager ==> Error when consuming queue'')] \<and>
            list_all task_call bg) \<and>
      (running w = [] \<longrightarrow>
         trace (snd (consume_round grace w)) =
           trace w @ [QReceive RSMQ_READ_TIMEOUT,
             Report QueueError (Some ''DeviceStateManager ==> Error when consuming queue'')])) \<and>
   (\<forall>ms. count_list (trace (snd (consume_round grace w))) (Sleep ms) =
      count_list (trace w) (Sleep ms) +
      (if \<not> failing (rsmq_faults w) \<and> next_ready w = None \<and> ms = 1000 then 1 else 0)) \<and>
   now (snd (consume_round grace w)) =
     now w + (if \<not> failing (rsmq_faults w) \<and> next_ready w = None then 1 else 0)"
proof -
  let ?w1 = "snd (receiveMessageAsync RSMQ_READ_TIMEOUT w)"
  obtain bg where bg: "trace (yield ?w1) = trace ?w1 @ bg" "list_all task_call bg"
    using yield_trace by blast
  have idle1: "yield ?w1 = ?w1\<lparr>turns := tl (turns ?w1)\<rparr>" if "running w = []"
    using that by (simp add: yield_idle receive_frame)
  have 1: "fst (consume_round grace w) = Inr ()"
    by (rule round_fulfilled)
  have 2: "consume grace w = None"
    using consume_no_result [of grace w] by (cases "consume grace w") auto
  have 3: "(\<exists>bg. trace (snd (consume_round grace w)) =
              trace w @ [QReceive RSMQ_READ_TIMEOUT] @ bg @ [Sleep 1000] \<and>
            list_all task_call bg) \<and>
      (running w = [] \<longrightarrow>
         trace (snd (consume_round grace w)) = trace w @ [QReceive RSMQ_READ_TIMEOUT, Sleep 1000])"
    if "\<not> failing (rsmq_faults w) \<and> next_ready w = None"
  proof (rule conjI)
    have "trace (snd (consume_round grace w)) =
        trace w @ [QReceive RSMQ_READ_TIMEOUT] @ bg @ [Sleep 1000] \<and> list_all task_call bg"
      using that bg by (simp add: round_idle receive_frame)
    then show "\<exists>bg. trace (snd (consume_round grace w)) =
              trace w @ [QReceive RSMQ_READ_TIMEOUT] @ bg @ [Sleep 1000] \<and>
            list_all task_call bg"
      by blast
    show "running w = [] \<longrightarrow>
         trace (snd (consume_round grace w)) = trace w @ [QReceive RSMQ_READ_TIMEOUT, Sleep 1000]"
      using that by (simp add: round_idle idle1 receive_frame)
  qed
  have 4: "(\<exists>bg. trace (snd (consume_round grace w)) =
              trace w @ [QReceive RSMQ_READ_TIMEOUT] @ bg @
              [Report QueueError (Some ''DeviceStateManager ==> Error when consuming queue'')] \<and>
            list_all task_call bg) \<and>
      (running w = [] \<longrightarrow>
         trace (snd (consume_round grace w)) =
           trace w @ [QReceive RSMQ_READ_TIMEOUT,
             Report QueueError (Some ''DeviceStateManager ==> Error when consuming queue'')])"
    if "failing (rsmq_faults w)"
  proof (rule conjI)
    have "trace (snd (consume_round grace w)) =
        trace w @ [QReceive RSMQ_READ_TIMEOUT] @ bg @
          [Report QueueError (Some ''DeviceStateManager ==> Error when consuming queue'')] \<and>
        list_all task_call bg"
      using that bg by (simp add: round_receive_failed receive_frame)
    then show "\<exists>bg. trace (snd (consume_round grace w)) =
              trace w @ [QReceive RSMQ_READ_TIMEOUT] @ bg @
              [Report QueueError (Some ''DeviceStateManager ==> Error when consuming queue'')] \<and>
            list_all task_call bg"
      by blast
    show "running w = [] \<longrightarrow>
         trace (snd (consume_round grace w)) =
           trace w @ [QReceive RSMQ_READ_TIMEOUT,
             Report QueueError (Some ''DeviceStateManager ==> Error when consuming queue'')]"
      using that by (simp add: round_receive_failed idle1 receive_frame)
  qed
  have 5: "\<forall>ms. count_list (trace (snd (consume_round grace w))) (Sleep ms) =
      count_list (trace w) (Sleep ms) +
      (if \<not> failing (rsmq_faults w) \<and> next_ready w = None \<and> ms = 1000 then 1 else 0)"
    by (rule allI) (rule round_sleeps)
  show ?thesis
    by (rule conjI, rule 1, rule conjI, rule 2, rule conjI, rule impI, rule 3, assumption,
        rule conjI, rule impI, rule 4, assumption, rule conjI, rule 5, rule round_now)
qed

text \<open>The theorem at work: an idle queue, and a queue that is down.\<close>
theorem consume_never_returns_witness:
  "\<not> failing (rsmq_faults fresh_world) \<and> next_ready fresh_world = None \<and>
   running fresh_world = [] \<and>
   trace (snd (consume_round 10 fresh_world)) = [QReceive 30, Sleep 1000] \<and>
   now (snd (consume_round 10 fresh_world)) = 1 \<and>
   failing (rsmq_faults (fresh_world\<lparr>rsmq_faults := [True]\<rparr>)) \<and>
   running (fresh_world\<lparr>rsmq_faults := [True]\<rparr>) = [] \<and>
   trace (snd (consume_round 10 (fresh_world\<lparr>rsmq_faults := [True]\<rparr>))) =
     [QReceive 30, Report QueueError (Some ''DeviceStateManager ==> Error when consuming queue'')] \<and>
   fst (consume_round 10 fresh_world) = Inr () \<and>
   consume 10 fresh_world = None"
proof -
  have h1: "\<not> failing (rsmq_faults fresh_world) \<and> next_ready fresh_world = None"
    by (simp add: fresh_world_def failing_def next_ready_def)
  have h2: "failing (rsmq_faults (fresh_world\<lparr>rsmq_faults := [True]\<rparr>))"
    by (simp add: failing_def)
  have h3: "running fresh_world = []" "running (fresh_world\<lparr>rsmq_faults := [True]\<rparr>) = []"
    "trace fresh_world = []" "now fresh_world = 0"
    by (simp_all add: fresh_world_def)
  from consume_never_returns [of 10 fresh_world]
    consume_never_returns [of 10 "fresh_world\<lparr>rsmq_faults := [True]\<rparr>"]
  show ?thesis using h1 h2 h3 by (simp add: RSMQ_READ_TIMEOUT_def)
qed

section \<open>Messages the consumer handles\<close>




text \<open>
  Claim C3, as the source has it. The claim says that a message whose \<^verbatim>\<open>nextState\<close> is
  neither \<^verbatim>\<open>Timeout\<close> nor \<^verbatim>\<open>Offline\<close> is deleted and never delivered again. In the source
  the \<^verbatim>\<open>default\<close> case throws, which skips the \<^verbatim>\<open>.then\<close> that deletes, and the
  \<^verbatim>\<open>.catch\<close> only reports. A message that asks for \<^verbatim>\<open>Online\<close>: after the round it is
  still in the queue, no deletion was asked for, and thirty seconds later it is the next
  ready message again.
\<close>
theorem unexpected_message_redelivered:
  "queue (snd (consume_round 10 odd_message_world)) =
     [\<lparr>mid = ''m'', body = MessageText ''dev-1'' (Num 1), visible_at = 30\<rparr>] \<and>
   trace (snd (consume_round 10 odd_message_world)) =
     [QReceive 30, Report (UnexpectedState (Num 1)) None] \<and>
   next_ready ((snd (consume_round 10 odd_message_world))\<lparr>now := 30\<rparr>) =
     Some \<lparr>mid = ''m'', body = MessageText ''dev-1'' (Num 1), visible_at = 30\<rparr>"
  by (simp add: odd_message_world_def fresh_world_def consume_round_def handle_message_def
      awaited_def yield_def promise_defs service_defs constant_defs Let_def)

text \<open>
  Claim C3 (amended). For every queue message whose text does not parse or whose
  \<^verbatim>\<open>nextState\<close> is neither \<^verbatim>\<open>Timeout\<close> nor \<^verbatim>\<open>Offline\<close>, the round reports the error
  and does nothing else: beside the receive and the report the only calls are those of
  dropped chains, no state is written, and with no dropped chain running the message stays
  in the queue, hidden for the visibility timeout. For a \<^verbatim>\<open>Timeout\<close> or \<^verbatim>\<open>Offline\<close>
  message handling never rejects, and the round always goes on to ask for the deletion of
  the message, after it has asked for the write: the deletion succeeds and the message is
  in the queue no more, or it fails and that is reported.
\<close>
theorem unexpected_message_stays:
  assumes "next_ready w = Some m" and "\<not> failing (rsmq_faults w)"
  shows "(body m = BadMessage \<or>
          (\<exists>u ns. body m = MessageText u ns \<and> ns \<noteq> Num (state_value Timeout) \<and>
                   ns \<noteq> Num (state_value Offline)) \<longrightarrow>
       (\<exists>bg. trace (snd (consume_round grace w)) =
          trace w @ [QReceive RSMQ_READ_TIMEOUT] @ bg @
          [Report (case body m of BadMessage \<Rightarrow> SyntaxError
                   | MessageText u ns \<Rightarrow> UnexpectedState ns) None] \<and>
          list_all task_call bg) \<and>
       device (snd (consume_round grace w)) = device w \<and>
       written (snd (consume_round grace w)) = written w \<and>
       (running w = [] \<longrightarrow>
          trace (snd (consume_round grace w)) =
            trace w @ [QReceive RSMQ_READ_TIMEOUT,
              Report (case body m of BadMessage \<Rightarrow> SyntaxError
                      | MessageText u ns \<Rightarrow> UnexpectedState ns) None] \<and>
          queue (snd (consume_round grace w)) =
            map (hide (mid m) (now w + RSMQ_READ_TIMEOUT)) (queue w) \<and>
          m\<lparr>visible_at := now w + RSMQ_READ_TIMEOUT\<rparr> \<in> set (queue (snd (consume_round grace w))))) \<and>
     (\<forall>u s. body m = MessageText u (Num (state_value s)) \<and> (s = Timeout \<or> s = Offline) \<longrightarrow>
       (\<exists>b. fst (handle_message grace (body m) (yield (snd (receiveMessageAsync RSMQ_READ_TIMEOUT w))))
            = Inr b) \<and>
       (\<exists>pre post. trace (snd (consume_round grace w)) =
           trace w @ pre @ [QDelete (Str (mid m))] @ post \<and>
         ApiPatch u (state_value s) \<in> set pre \<and>
         (post = [] \<and> list_all (other_than (mid m)) (queue (snd (consume_round grace w))) \<or>
          post = [Report QueueError None])))"
proof -
  let ?w0 = "snd (receiveMessageAsync RSMQ_READ_TIMEOUT w)"
  let ?w1 = "yield ?w0"
  let ?e = "Report (case body m of BadMessage \<Rightarrow> SyntaxError
                   | MessageText u ns \<Rightarrow> UnexpectedState ns) None"
  have 1: "(\<exists>bg. trace (snd (consume_round grace w)) =
          trace w @ [QReceive RSMQ_READ_TIMEOUT] @ bg @ [?e] \<and> list_all task_call bg) \<and>
       device (snd (consume_round grace w)) = device w \<and>
       written (snd (consume_round grace w)) = written w \<and>
       (running w = [] \<longrightarrow>
          trace (snd (consume_round grace w)) = trace w @ [QReceive RSMQ_READ_TIMEOUT, ?e] \<and>
          queue (snd (consume_round grace w)) =
            map (hide (mid m) (now w + RSMQ_READ_TIMEOUT)) (queue w) \<and>
          m\<lparr>visible_at := now w + RSMQ_READ_TIMEOUT\<rparr> \<in> set (queue (snd (consume_round grace w))))"
    if c: "body m = BadMessage \<or>
          (\<exists>u ns. body m = MessageText u ns \<and> ns \<noteq> Num (state_value Timeout) \<and>
                   ns \<noteq> Num (state_value Offline))"
  proof -
    note e = round_unhandled [OF assms c, of grace]
    obtain bg1 where bg1: "trace ?w1 = trace ?w0 @ bg1" "list_all task_call bg1"
      using yield_trace [of ?w0] by blast
    obtain bg2 where bg2: "trace (yield ?w1) = trace ?w1 @ bg2" "list_all task_call bg2"
      using yield_trace [of ?w1] by blast
    have "trace (snd (consume_round grace w)) =
          trace w @ [QReceive RSMQ_READ_TIMEOUT] @ (bg1 @ bg2) @ [?e] \<and>
        list_all task_call (bg1 @ bg2)"
      using bg1 bg2 by (simp add: e receive_frame)
    then have a: "\<exists>bg. trace (snd (consume_round grace w)) =
          trace w @ [QReceive RSMQ_READ_TIMEOUT] @ bg @ [?e] \<and> list_all task_call bg"
      by blast
    have b: "device (snd (consume_round grace w)) = device w"
      "written (snd (consume_round grace w)) = written w"
      by (simp_all add: e yield_frame receive_frame)
    have d: "trace (snd (consume_round grace w)) = trace w @ [QReceive RSMQ_READ_TIMEOUT, ?e] \<and>
          queue (snd (consume_round grace w)) =
            map (hide (mid m) (now w + RSMQ_READ_TIMEOUT)) (queue w) \<and>
          m\<lparr>visible_at := now w + RSMQ_READ_TIMEOUT\<rparr> \<in> set (queue (snd (consume_round grace w)))"
      if i: "running w = []"
    proof -
      have r0: "running ?w0 = []"
        using i by (simp add: receive_frame)
      have r1: "running ?w1 = []"
        using r0 by (rule yield_idle_frame(3))
      have mq: "m \<in> set (queue w)"
        using assms(1) by (auto simp: next_ready_def find_Some_iff in_set_conv_nth)
      have "queue (snd (consume_round grace w)) = queue ?w0"
        by (simp add: e yield_idle_frame(1) [OF r1] yield_idle_frame(1) [OF r0])
      then have q: "queue (snd (consume_round grace w)) =
          map (hide (mid m) (now w + RSMQ_READ_TIMEOUT)) (queue w)"
        by (simp add: received_world [OF assms])
      have "hide (mid m) (now w + RSMQ_READ_TIMEOUT) m \<in> set (queue (snd (consume_round grace w)))"
        unfolding q using mq by (rule imageI [of m "set (queue w)", folded set_map])
      then have "m\<lparr>visible_at := now w + RSMQ_READ_TIMEOUT\<rparr> \<in> set (queue (snd (consume_round grace w)))"
        by (simp add: hide_def)
      moreover have "trace (snd (consume_round grace w)) = trace w @ [QReceive RSMQ_READ_TIMEOUT, ?e]"
        by (simp add: e yield_idle_frame(2) [OF r1] yield_idle_frame(2) [OF r0] receive_frame)
      ultimately show ?thesis using q by simp
    qed
    show ?thesis
      by (rule conjI, rule a, rule conjI, rule b(1), rule conjI, rule b(2), rule impI, rule d,
          assumption)
  qed
  have 2: "(\<exists>b. fst (handle_message grace (body m) ?w1) = Inr b) \<and>
       (\<exists>pre post. trace (snd (consume_round grace w)) =
           trace w @ pre @ [QDelete (Str (mid m))] @ post \<and>
         ApiPatch u (state_value s) \<in> set pre \<and>
         (post = [] \<and> list_all (other_than (mid m)) (queue (snd (consume_round grace w))) \<or>
          post = [Report QueueError None]))"
    if c: "body m = MessageText u (Num (state_value s)) \<and> (s = Timeout \<or> s = Offline)" for u s
  proof -
    from c have b: "body m = MessageText u (Num (state_value s))" and s: "s = Timeout \<or> s = Offline"
      by simp_all
    have "fst (handle_message grace (body m) ?w1) = Inr (\<not> failing (api_faults ?w1))"
      using handle_message_result [OF s, of grace u ?w1] by (simp add: b)
    then have x: "\<exists>b. fst (handle_message grace (body m) ?w1) = Inr b"
      by blast
    have y: "\<exists>pre post. trace (snd (consume_round grace w)) =
           trace w @ pre @ [QDelete (Str (mid m))] @ post \<and>
         ApiPatch u (state_value s) \<in> set pre \<and>
         (post = [] \<and> list_all (other_than (mid m)) (queue (snd (consume_round grace w))) \<or>
          post = [Report QueueError None])"
      using round_deletes [OF assms b s, of grace] by blast
    show ?thesis using x y by (rule conjI)
  qed
  show ?thesis
  proof (rule conjI)
    show "body m = BadMessage \<or>
          (\<exists>u ns. body m = MessageText u ns \<and> ns \<noteq> Num (state_value Timeout) \<and>
                   ns \<noteq> Num (state_value Offline)) \<longrightarrow>
       (\<exists>bg. trace (snd (consume_round grace w)) =
          trace w @ [QReceive RSMQ_READ_TIMEOUT] @ bg @ [?e] \<and> list_all task_call bg) \<and>
       device (snd (consume_round grace w)) = device w \<and>
       written (snd (consume_round grace w)) = written w \<and>
       (running w = [] \<longrightarrow>
          trace (snd (consume_round grace w)) = trace w @ [QReceive RSMQ_READ_TIMEOUT, ?e] \<and>
          queue (snd (consume_round grace w)) =
            map (hide (mid m) (now w + RSMQ_READ_TIMEOUT)) (queue w) \<and>
          m\<lparr>visible_at := now w + RSMQ_READ_TIMEOUT\<rparr> \<in> set (queue (snd (consume_round grace w))))"
      by (rule impI) (rule 1)
    show "\<forall>u s. body m = MessageText u (Num (state_value s)) \<and> (s = Timeout \<or> s = Offline) \<longrightarrow>
       (\<exists>b. fst (handle_message grace (body m) ?w1) = Inr b) \<and>
       (\<exists>pre post. trace (snd (consume_round grace w)) =
           trace w @ pre @ [QDelete (Str (mid m))] @ post \<and>
         ApiPatch u (state_value s) \<in> set pre \<and>
         (post = [] \<and> list_all (other_than (mid m)) (queue (snd (consume_round grace w))) \<or>
          post = [Report QueueError None]))"
      by (rule allI, rule allI, rule impI) (rule 2)
  qed
qed

text \<open>
  The theorem at work: a message that asks for \<^verbatim>\<open>Online\<close>, and the \<^verbatim>\<open>Timeout\<close> message
  of \<^verbatim>\<open>dev-1\<close>.
\<close>
theorem unexpected_message_stays_witness:
  "next_ready odd_message_world =
     Some \<lparr>mid = ''m'', body = MessageText ''dev-1'' (Num 1), visible_at = 0\<rparr> \<and>
   \<not> failing (rsmq_faults odd_message_world) \<and>
   Num 1 \<noteq> Num (state_value Timeout) \<and> Num 1 \<noteq> Num (state_value Offline) \<and>
   running odd_message_world = [] \<and>
   trace (snd (consume_round 10 odd_message_world)) =
     [QReceive 30, Report (UnexpectedState (Num 1)) None] \<and>
   queue (snd (consume_round 10 odd_message_world)) =
     [\<lparr>mid = ''m'', body = MessageText ''dev-1'' (Num 1), visible_at = 30\<rparr>] \<and>
   next_ready due_world =
     Some \<lparr>mid = ''m'', body = MessageText ''dev-1'' (Num (state_value Timeout)), visible_at = 5\<rparr> \<and>
   \<not> failing (rsmq_faults due_world) \<and>
   QDelete (Str ''m'') \<in> set (trace (snd (consume_round 10 due_world)))"
proof -
  let ?m = "\<lparr>mid = ''m'', body = MessageText ''dev-1'' (Num 1), visible_at = 0\<rparr>"
  let ?n = "\<lparr>mid = ''m'', body = MessageText ''dev-1'' (Num (state_value Timeout)), visible_at = 5\<rparr>"
  have h1: "next_ready odd_message_world = Some ?m"
    and h2: "\<not> failing (rsmq_faults odd_message_world)"
    and h4: "running odd_message_world = []"
    by (simp_all add: odd_message_world_fields)
  have h3: "body ?m = BadMessage \<or>
         (\<exists>u ns. body ?m = MessageText u ns \<and> ns \<noteq> Num (state_value Timeout) \<and>
                  ns \<noteq> Num (state_value Offline))"
    by simp
  have g1: "next_ready due_world = Some ?n"
    by (simp add: due_world_fields)
  have g2: "\<not> failing (rsmq_faults due_world)"
    by (simp add: due_world_fields failing_def)
  have g3: "body ?n = MessageText ''dev-1'' (Num (state_value Timeout)) \<and>
      (Timeout = Timeout \<or> Timeout = Offline)"
    by simp
  from unexpected_message_stays [OF h1 h2, of 10, THEN conjunct1, rule_format, OF h3,
      THEN conjunct2, THEN conjunct2, THEN conjunct2, rule_format, OF h4]
  have a: "trace (snd (consume_round 10 odd_message_world)) =
       [QReceive 30, Report (UnexpectedState (Num 1)) None] \<and>
     queue (snd (consume_round 10 odd_message_world)) =
       [\<lparr>mid = ''m'', body = MessageText ''dev-1'' (Num 1), visible_at = 30\<rparr>]"
    by (simp add: odd_message_world_fields RSMQ_READ_TIMEOUT_def hide_def)
  from unexpected_message_stays [OF g1 g2, of 10, THEN conjunct2, rule_format, OF g3,
      THEN conjunct2]
  have b: "QDelete (Str ''m'') \<in> set (trace (snd (consume_round 10 due_world)))"
    by auto
  show ?thesis using h1 h2 h4 g1 g2 a b by simp
qed

text \<open>
  Claim C10, as the source has it. The claim says that after a failed write the message is
  still deleted and never delivered again. \<^verbatim>\<open>updateDeviceModel\<close> does resolve to false and
  the round does go on to \<^verbatim>\<open>deleteMessageAsync\<close>; but that call can fail in its turn, and
  then the \<^verbatim>\<open>.catch\<close> only reports. The \<^verbatim>\<open>Offline\<close> message of \<^verbatim>\<open>dev-1\<close> with the write
  failing and the deletion failing: both failures are reported, the device keeps the state
  \<^verbatim>\<open>Timeout\<close>, the message stays in the queue, and when the visibility timeout has passed
  it is the next ready message again.
\<close>
theorem failed_write_then_failed_delete:
  "drop (length (trace offline_due_world))
     (trace (snd (consume_round 10
        (offline_due_world\<lparr>api_faults := [True], rsmq_faults := [False, True]\<rparr>)))) =
     [QReceive 30, ApiPatch ''dev-1'' (state_value Offline),
      Report ApiError (Some ''DeviceStateManager: Error updating the API with the device new state.''),
      QDelete (Str ''m0''), Report QueueError None] \<and>
   device (snd (consume_round 10
     (offline_due_world\<lparr>api_faults := [True], rsmq_faults := [False, True]\<rparr>))) =
     [(''dev-1'', state_value Timeout)] \<and>
   queue (snd (consume_round 10
     (offline_due_world\<lparr>api_faults := [True], rsmq_faults := [False, True]\<rparr>))) =
     [\<lparr>mid = ''m0'', body = MessageText ''dev-1'' (Num (state_value Offline)), visible_at = 45\<rparr>] \<and>
   next_ready ((snd (consume_round 10
     (offline_due_world\<lparr>api_faults := [True], rsmq_faults := [False, True]\<rparr>)))\<lparr>now := 45\<rparr>) =
     Some \<lparr>mid = ''m0'', body = MessageText ''dev-1'' (Num (state_value Offline)), visible_at = 45\<rparr>"
  by (simp add: offline_due_world_fields consume_round_def handle_message_def chain_defs
      updateDeviceModel_def promise_defs service_defs constant_defs Let_def)

text \<open>
  Claim C10 (amended). When the write to the System-of-Record fails while the consumer
  handles a \<^verbatim>\<open>Timeout\<close> or \<^verbatim>\<open>Offline\<close> message, \<^verbatim>\<open>updateDeviceModel\<close> resolves to false
  and handling does not reject: the failure is reported, the device table stays as it was
  and no row is written, and after the report the round goes on to ask for the deletion of
  the message. The deletion succeeds, and the message is in the queue no more, or it fails,
  which is reported in its turn.
\<close>
theorem failed_write_message_deleted:
  assumes "next_ready w = Some m" and "\<not> failing (rsmq_faults w)"
    and "body m = MessageText u (Num (state_value s))"
    and "s = Timeout \<or> s = Offline"
    and "failing (api_faults w)"
  shows "fst (updateDeviceModel u s w) = Inr False \<and>
    fst (handle_message grace (body m) (yield (snd (receiveMessageAsync RSMQ_READ_TIMEOUT w)))) =
      Inr False \<and>
    device (snd (consume_round grace w)) = device w \<and>
    written (snd (consume_round grace w)) = written w \<and>
    (\<exists>pre post. trace (snd (consume_round grace w)) =
        trace w @ pre @ [QDelete (Str (mid m))] @ post \<and>
      Report ApiError (Some ''DeviceStateManager: Error updating the API with the device new state.'')
        \<in> set pre \<and>
      (post = [] \<and> list_all (other_than (mid m)) (queue (snd (consume_round grace w))) \<or>
       post = [Report QueueError None]))"
proof -
  let ?w1 = "yield (snd (receiveMessageAsync RSMQ_READ_TIMEOUT w))"
  have f: "api_faults ?w1 = api_faults w"
    by (simp add: yield_frame receive_frame)
  have 1: "fst (updateDeviceModel u s w) = Inr False"
    using assms(5) by (simp add: updateDeviceModel_result)
  have 2: "fst (handle_message grace (body m) ?w1) = Inr False"
    using handle_message_result [OF assms(4), of grace u ?w1] assms(5) by (simp add: assms(3) f)
  have 3: "device (snd (consume_round grace w)) = device w"
    using assms(5) by (simp add: round_table [OF assms(1-4)] updateDeviceModel_world)
  have 4: "written (snd (consume_round grace w)) = written w"
    using assms(5) by (simp add: round_table [OF assms(1-4)] updateDeviceModel_world)
  have 5: "\<exists>pre post. trace (snd (consume_round grace w)) =
        trace w @ pre @ [QDelete (Str (mid m))] @ post \<and>
      Report ApiError (Some ''DeviceStateManager: Error updating the API with the device new state.'')
        \<in> set pre \<and>
      (post = [] \<and> list_all (other_than (mid m)) (queue (snd (consume_round grace w))) \<or>
       post = [Report QueueError None])"
    using round_deletes [OF assms(1-4), of grace] assms(5) by blast
  show ?thesis
    by (rule conjI, rule 1, rule conjI, rule 2, rule conjI, rule 3, rule conjI, rule 4, rule 5)
qed

text \<open>
  The theorem at work: the \<^verbatim>\<open>Timeout\<close> message of \<^verbatim>\<open>dev-1\<close> is due and the write fails.
\<close>
theorem failed_write_message_deleted_witness:
  "next_ready (due_world\<lparr>api_faults := [True]\<rparr>) =
     Some \<lparr>mid = ''m'', body = MessageText ''dev-1'' (Num (state_value Timeout)), visible_at = 5\<rparr> \<and>
   \<not> failing (rsmq_faults (due_world\<lparr>api_faults := [True]\<rparr>)) \<and>
   failing (api_faults (due_world\<lparr>api_faults := [True]\<rparr>)) \<and>
   fst (updateDeviceModel ''dev-1'' Timeout (due_world\<lparr>api_faults := [True]\<rparr>)) = Inr False \<and>
   device (snd (consume_round 10 (due_world\<lparr>api_faults := [True]\<rparr>))) = [(''dev-1'', 1)] \<and>
   written (snd (consume_round 10 (due_world\<lparr>api_faults := [True]\<rparr>))) = [(''dev-1'', 1)] \<and>
   QDelete (Str ''m'') \<in> set (trace (snd (consume_round 10 (due_world\<lparr>api_faults := [True]\<rparr>))))"
proof -
  let ?w = "due_world\<lparr>api_faults := [True]\<rparr>"
  let ?m = "\<lparr>mid = ''m'', body = MessageText ''dev-1'' (Num (state_value Timeout)), visible_at = 5\<rparr>"
  have h1: "next_ready ?w = Some ?m"
    by (simp add: next_ready_def ready_def due_world_fields(1,2))
  have h2: "\<not> failing (rsmq_faults ?w)" by (simp add: due_world_fields failing_def)
  have h3: "body ?m = MessageText ''dev-1'' (Num (state_value Timeout))" by simp
  have h4: "Timeout = Timeout \<or> Timeout = Offline" by simp
  have h5: "failing (api_faults ?w)" by (simp add: failing_def)
  note T = failed_write_message_deleted [OF h1 h2 h3 h4 h5, of 10]
  from T have a: "fst (updateDeviceModel ''dev-1'' Timeout ?w) = Inr False"
    "device (snd (consume_round 10 ?w)) = [(''dev-1'', 1)]"
    "written (snd (consume_round 10 ?w)) = [(''dev-1'', 1)]"
    by (simp_all add: due_world_fields)
  from T have b: "QDelete (Str ''m'') \<in> set (trace (snd (consume_round 10 ?w)))"
    by auto
  show ?thesis using h1 h2 h5 a b by simp
qed



end
